theory Spec2Isabelle
  imports Complex_Main "HOL-Library.AList"
begin

section \<open>JavaScript values\<close>

text \<open>
  The worker passes untyped (\<open>any\<close>) values around: query maps, JSON-Schema documents,
  payloads, thrown values. They are modelled by one datatype. An object is the association
  list of its own properties, in enumeration order. \<open>JBuiltin k\<close> stands for the member
  named \<open>k\<close> that every ordinary object inherits from \<open>Object.prototype\<close>.
  Numbers are IEEE doubles in the program. The model does no arithmetic: a finite number is
  the rational it denotes, and NaN and the infinities stand apart; how \<open>Number\<close> rounds
  a numeral to a double is left to the parameter that stands for it.
\<close>

datatype jsnum = NaN | PosInf | NegInf | Fin rat

datatype jsval =
    JUndefined
  | JNull
  | JBool bool
  | JNum jsnum
  | JStr string
  | JArr "jsval list"
  | JObj "(string \<times> jsval) list"
  | JBuiltin string

datatype js_error = TypeError | SyntaxError | Error string

text \<open>The names an ordinary object inherits from \<open>Object.prototype\<close>.\<close>

definition Object_prototype_names :: "string list" where
  "Object_prototype_names =
     [''constructor'', ''__defineGetter__'', ''__defineSetter__'', ''hasOwnProperty'',
      ''__lookupGetter__'', ''__lookupSetter__'', ''isPrototypeOf'', ''propertyIsEnumerable'',
      ''toString'', ''valueOf'', ''__proto__'', ''toLocaleString'']"

definition inherited :: "string \<Rightarrow> jsval" where
  "inherited k = (if k \<in> set Object_prototype_names then JBuiltin k else JUndefined)"

text \<open>
  Property read \<open>v[k]\<close>. Reading a property of \<open>undefined\<close> or \<open>null\<close> throws a
  TypeError. On an object the own property wins, then the inherited member. On a
  boolean, a number, a string, an array or a function the read is modelled for the names
  that neither the value nor its own prototype defines, which then come from
  \<open>Object.prototype\<close> or are \<open>undefined\<close>: the program reads \<open>message\<close> and
  \<open>type\<close> on such values. The length and the elements of a string or an array, and the
  methods of their prototypes, are not modelled; they can be read only where a JSON-Schema
  has a string or an array for its \<open>properties\<close>, which no property below is about.
\<close>

definition own_or_inherited :: "(string \<times> jsval) list \<Rightarrow> string \<Rightarrow> jsval" where
  "own_or_inherited ps k = (case map_of ps k of Some v \<Rightarrow> v | None \<Rightarrow> inherited k)"

fun js_get :: "jsval \<Rightarrow> string \<Rightarrow> js_error + jsval" where
  "js_get JUndefined k = Inl TypeError"
| "js_get JNull k = Inl TypeError"
| "js_get (JObj ps) k = Inr (own_or_inherited ps k)"
| "js_get v k = Inr (inherited k)"

text \<open>
  Property write \<open>obj[k] = v\<close> on a plain object, as the list of own properties: an
  existing key keeps its place, a new one goes last. Writing \<open>__proto__\<close> runs the
  inherited setter and creates no own property.
\<close>

definition js_set :: "(string \<times> jsval) list \<Rightarrow> string \<Rightarrow> jsval \<Rightarrow> (string \<times> jsval) list" where
  "js_set obj k v = (if k = ''__proto__'' then obj else AList.update k v obj)"

fun truthy :: "jsval \<Rightarrow> bool" where
  "truthy JUndefined = False"
| "truthy JNull = False"
| "truthy (JBool b) = b"
| "truthy (JNum n) = (n \<noteq> NaN \<and> n \<noteq> Fin 0)"
| "truthy (JStr s) = (s \<noteq> [])"
| "truthy (JArr xs) = True"
| "truthy (JObj ps) = True"
| "truthy (JBuiltin k) = True"

fun typeof :: "jsval \<Rightarrow> string" where
  "typeof JUndefined = ''undefined''"
| "typeof JNull = ''object''"
| "typeof (JBool b) = ''boolean''"
| "typeof (JNum n) = ''number''"
| "typeof (JStr s) = ''string''"
| "typeof (JArr xs) = ''object''"
| "typeof (JObj ps) = ''object''"
| "typeof (JBuiltin k) = (if k = ''__proto__'' then ''object'' else ''function'')"

section \<open>helpers.ts\<close>

subsection \<open>getPayloadFromParams\<close>

text \<open>
  \<open>Number\<close> and \<open>JSON.parse\<close> are functions of the JavaScript runtime, not of this
  repository: the model takes them as the parameters \<open>Number\<close> and \<open>JSON_parse\<close>
  (the latter may throw a SyntaxError).

  One turn of the \<open>for (const key in query)\<close> loop: the payload built so far goes in,
  the payload after this key comes out, or the exception that ends the function.
\<close>

definition coerce_key ::
  "(jsval \<Rightarrow> jsnum) \<Rightarrow> (jsval \<Rightarrow> js_error + jsval) \<Rightarrow> (string \<times> jsval) list \<Rightarrow> jsval \<Rightarrow>
   string \<Rightarrow> (string \<times> jsval) list \<Rightarrow> js_error + (string \<times> jsval) list" where
  "coerce_key Number JSON_parse query properties key payload =
     (case js_get properties key of
        Inl e \<Rightarrow> Inl e
      | Inr pk \<Rightarrow>
          if \<not> truthy pk then Inr payload
          else
            (let param = own_or_inherited query key in
             case js_get pk ''type'' of
               Inl e \<Rightarrow> Inl e
             | Inr t \<Rightarrow>
                 if t = JStr ''string'' then Inr (js_set payload key param)
                 else if t = JStr ''boolean'' then
                   Inr (js_set payload key (JBool (param = JStr ''true'')))
                 else if t = JStr ''number'' \<or> t = JStr ''integer'' then
                   Inr (js_set payload key (JNum (Number param)))
                 else
                   (case JSON_parse param of
                      Inl e \<Rightarrow> Inl e
                    | Inr v \<Rightarrow> Inr (js_set payload key v))))"

fun coerce_keys ::
  "(jsval \<Rightarrow> jsnum) \<Rightarrow> (jsval \<Rightarrow> js_error + jsval) \<Rightarrow> (string \<times> jsval) list \<Rightarrow> jsval \<Rightarrow>
   string list \<Rightarrow> (string \<times> jsval) list \<Rightarrow> js_error + (string \<times> jsval) list" where
  "coerce_keys Number JSON_parse query properties [] payload = Inr payload"
| "coerce_keys Number JSON_parse query properties (key # keys) payload =
     (case coerce_key Number JSON_parse query properties key payload of
        Inl e \<Rightarrow> Inl e
      | Inr payload' \<Rightarrow> coerce_keys Number JSON_parse query properties keys payload')"

definition getPayloadFromParams ::
  "(jsval \<Rightarrow> jsnum) \<Rightarrow> (jsval \<Rightarrow> js_error + jsval) \<Rightarrow> (string \<times> jsval) list \<Rightarrow> jsval \<Rightarrow>
   js_error + jsval" where
  "getPayloadFromParams Number JSON_parse query inputSchema =
     (case js_get inputSchema ''type'' of
        Inl e \<Rightarrow> Inl e
      | Inr t \<Rightarrow>
          if t = JUndefined then Inr (JObj query)
          else
            (case js_get inputSchema ''additionalProperties'' of
               Inl e \<Rightarrow> Inl e
             | Inr ap \<Rightarrow>
                 if truthy ap then Inr (JObj query)
                 else
                   (case js_get inputSchema ''properties'' of
                      Inl e \<Rightarrow> Inl e
                    | Inr properties \<Rightarrow>
                        (case coerce_keys Number JSON_parse query properties (map fst query) [] of
                           Inl e \<Rightarrow> Inl e
                         | Inr payload \<Rightarrow> Inr (JObj payload)))))"

subsection \<open>isZodTypeNull\<close>

text \<open>
  zod and zod-to-json-schema are dependencies of the worker. A zod schema is modelled as
  far as the worker looks into it: the \<open>_def.typeName\<close> tag, what \<open>safeParse\<close> finds,
  and the own properties of the JSON-Schema object \<open>zodToJsonSchema\<close> returns for it.
  zod's \<open>safeParse\<close> reports success exactly when it recorded no issue, and a failure
  carries the issues it recorded; \<open>issues\<close> is that list. The parsed \<open>data\<close> of a
  success is left out: the worker never reads it.
\<close>

record ZodType =
  typeName :: string
  issues :: "jsval \<Rightarrow> jsval list"
  zodToJsonSchema :: "(string \<times> jsval) list"

datatype SafeParseReturnType = SafeParseSuccess | SafeParseError "jsval list"

definition safeParse :: "ZodType \<Rightarrow> jsval \<Rightarrow> SafeParseReturnType" where
  "safeParse schema data =
     (if issues schema data = [] then SafeParseSuccess else SafeParseError (issues schema data))"

text \<open>
  The issue zod records when a value has the wrong type: \<open>getParsedType\<close> names the
  type it received, and the default message is "Required" for \<open>undefined\<close>.
\<close>

fun getParsedType :: "jsval \<Rightarrow> string" where
  "getParsedType JUndefined = ''undefined''"
| "getParsedType JNull = ''null''"
| "getParsedType (JBool b) = ''boolean''"
| "getParsedType (JNum n) = (if n = NaN then ''nan'' else ''number'')"
| "getParsedType (JStr s) = ''string''"
| "getParsedType (JArr xs) = ''array''"
| "getParsedType (JObj ps) = ''object''"
| "getParsedType (JBuiltin k) = (if k = ''__proto__'' then ''object'' else ''function'')"

definition invalid_type :: "string \<Rightarrow> jsval \<Rightarrow> jsval list \<Rightarrow> jsval" where
  "invalid_type expected received issue_path =
     JObj [(''code'', JStr ''invalid_type''),
           (''expected'', JStr expected),
           (''received'', JStr (getParsedType received)),
           (''path'', JArr issue_path),
           (''message'',
              JStr (if received = JUndefined then ''Required''
                    else ''Expected '' @ expected @ '', received '' @ getParsedType received))]"

text \<open>\<open>z.null()\<close> and \<open>z.any()\<close>, the two schemas the Router itself builds.\<close>

definition z_null :: ZodType where
  "z_null =
     \<lparr> typeName = ''ZodNull'',
       issues = (\<lambda>v. if v = JNull then [] else [invalid_type ''null'' v []]),
       zodToJsonSchema =
         [(''$schema'', JStr ''http://json-schema.org/draft-07/schema#''),
          (''type'', JStr ''null'')] \<rparr>"

definition z_any :: ZodType where
  "z_any =
     \<lparr> typeName = ''ZodAny'', issues = (\<lambda>v. []),
       zodToJsonSchema = [(''$schema'', JStr ''http://json-schema.org/draft-07/schema#'')] \<rparr>"

text \<open>\<open>inputZodType._def.typeName === "ZodNull"\<close>; the argument may be \<open>undefined\<close>.\<close>

definition isZodTypeNull :: "ZodType option \<Rightarrow> js_error + bool" where
  "isZodTypeNull inputZodType =
     (case inputZodType of
        None \<Rightarrow> Inl TypeError
      | Some z \<Rightarrow> Inr (typeName z = ''ZodNull''))"

subsection \<open>processException\<close>

definition processException :: "jsval \<Rightarrow> js_error + jsval" where
  "processException e =
     (if typeof e = ''string'' then Inr e
      else
        (case js_get e ''message'' of
           Inl err \<Rightarrow> Inl err
         | Inr m \<Rightarrow>
             if truthy m \<and> typeof m = ''string'' then Inr m
             else Inr (JStr ''Internal server error occured'')))"

subsection \<open>getErrorResponseSchema\<close>

definition getErrorResponseSchema :: jsval where
  "getErrorResponseSchema =
     (let schema =
        JObj [(''type'', JStr ''object''),
              (''properties'',
                 JObj [(''message'', JObj [(''type'', JStr ''string'')]),
                       (''errors'',
                          JObj [(''type'', JStr ''array''),
                                (''items'',
                                   JObj [(''type'', JStr ''object''),
                                         (''properties'',
                                            JObj [(''message'', JObj [(''type'', JStr ''string'')])]),
                                         (''additionalProperties'', JBool True)])])])]
      in JObj [(''description'', JStr ''Standard error response object''),
               (''content'', JObj [(''application/json'', JObj [(''schema'', schema)])])])"

subsection \<open>extractHeadersFromRequest\<close>

text \<open>
  An express request, as far as the worker reads it. A header value is a string, an array
  of strings or \<open>undefined\<close>.
\<close>

record Request =
  body :: jsval
  query :: "(string \<times> jsval) list"
  headers :: "(string \<times> jsval) list"

fun extractHeaders :: "(string \<times> jsval) list \<Rightarrow> (string \<times> jsval) list \<Rightarrow> (string \<times> jsval) list" where
  "extractHeaders [] hs = hs"
| "extractHeaders ((key, JStr s) # rest) hs = extractHeaders rest (js_set hs key (JStr s))"
| "extractHeaders ((key, JArr []) # rest) hs = extractHeaders rest (js_set hs key JUndefined)"
| "extractHeaders ((key, JArr (x # xs)) # rest) hs = extractHeaders rest (js_set hs key x)"
| "extractHeaders ((key, v) # rest) hs = extractHeaders rest hs"

definition extractHeadersFromRequest :: "Request \<Rightarrow> (string \<times> jsval) list" where
  "extractHeadersFromRequest req = extractHeaders (headers req) []"

section \<open>context.ts\<close>

record Context =
  req :: Request
  metadata :: "(string \<times> jsval) list"

definition new_Context :: "Request \<Rightarrow> Context" where
  "new_Context r = \<lparr> req = r, metadata = extractHeadersFromRequest r \<rparr>"

section \<open>route.ts\<close>

record RouteConfig =
  opId :: string
  opType :: string
  "method" :: string
  url :: string
  jsonSchema_input :: jsval
  jsonSchema_output :: jsval
  zodSchemas_input :: "ZodType option"
  zodSchemas_output :: "ZodType option"

text \<open>
  The user's callback \<open>(ctx, input) => Promise<O>\<close>, by how its promise settles: with a
  value, or rejected with the value thrown.
\<close>

datatype Settled = Fulfilled jsval | Rejected jsval

type_synonym Query = "Context \<Rightarrow> jsval \<Rightarrow> Settled"

subsection \<open>Route._getOpenAPIOperation\<close>

record OpenAPIOperation =
  path :: string
  http_method :: string
  operation :: jsval

definition getOpenAPIOperation :: "RouteConfig \<Rightarrow> js_error + OpenAPIOperation" where
  "getOpenAPIOperation cfg =
     (case isZodTypeNull (zodSchemas_input cfg) of
        Inl e \<Rightarrow> Inl e
      | Inr isRequestNull \<Rightarrow>
          (let requestBodyObject0 =
                 [(''description'', JStr (''Request object for '' @ opId cfg)),
                  (''content'', JObj []),
                  (''required'', JBool False)];
               requestBodyObject =
                 (if \<not> isRequestNull then
                    js_set
                      (js_set requestBodyObject0 ''content''
                         (JObj [(''application/json'', JObj [(''schema'', jsonSchema_input cfg)])]))
                      ''required'' (JBool True)
                  else requestBodyObject0)
           in case isZodTypeNull (zodSchemas_output cfg) of
                Inl e \<Rightarrow> Inl e
              | Inr isResponseNull \<Rightarrow>
                  (let successResponseStatusCode = (if isResponseNull then ''204'' else ''200'');
                       successResponseObject0 =
                         [(''description'', JStr (''Success response object for '' @ opId cfg))];
                       successResponseObject =
                         (if \<not> isResponseNull then
                            js_set successResponseObject0 ''content''
                              (JObj [(''application/json'',
                                        JObj [(''schema'', jsonSchema_output cfg)])])
                          else successResponseObject0);
                       op =
                         JObj [(''operationId'', JStr (opId cfg)),
                               (''requestBody'', JObj requestBodyObject),
                               (''responses'',
                                  JObj [(successResponseStatusCode, JObj successResponseObject),
                                        (''400'', getErrorResponseSchema),
                                        (''500'', getErrorResponseSchema)]),
                               (''x-request-op-type'', JStr (opType cfg))]
                   in Inr \<lparr> path = url cfg, http_method = method cfg, operation = op \<rparr>)))"

subsection \<open>Route.addRoute\<close>

text \<open>
  \<open>addRoute\<close> computes two flags from the configuration, builds the request handler and
  registers it with express under one of four verbs. \<open>InstalledRoute\<close> is what that call
  fixes; the handler itself reads \<open>this.config\<close> and \<open>this.handler\<close> again at every
  request.
\<close>

datatype Verb = GET | DELETE | PUT | POST

record InstalledRoute =
  isBodyPresent :: bool
  isRequestPayloadPresent :: bool
  verb :: Verb
  mounted_at :: string

definition addRoute :: "RouteConfig \<Rightarrow> js_error + InstalledRoute" where
  "addRoute cfg =
     (case isZodTypeNull (zodSchemas_input cfg) of
        Inl e \<Rightarrow> Inl e
      | Inr isNull \<Rightarrow>
          Inr \<lparr> isBodyPresent = (method cfg \<in> set [''post'', ''put'']),
                isRequestPayloadPresent = (\<not> isNull),
                verb = (if method cfg = ''get'' then GET
                        else if method cfg = ''delete'' then DELETE
                        else if method cfg = ''put'' then PUT
                        else POST),
                mounted_at = url cfg \<rparr>)"

text \<open>
  What one run of the request handler does: it writes a response (status, JSON body), or
  its promise rejects and no response is written. \<open>handler_calls\<close> lists the calls made to
  the user's callback, with their arguments.
\<close>

datatype Reply = Sends nat jsval | Rejects js_error

record Handled =
  reply :: Reply
  handler_calls :: "(Context \<times> jsval) list"

text \<open>The payload the handler extracts: lines "Create a default payload object" to "Extract the payload".\<close>

definition extractPayload ::
  "(jsval \<Rightarrow> jsnum) \<Rightarrow> (jsval \<Rightarrow> js_error + jsval) \<Rightarrow> InstalledRoute \<Rightarrow> RouteConfig \<Rightarrow>
   Request \<Rightarrow> js_error + jsval" where
  "extractPayload Number JSON_parse inst cfg r =
     (let payload = (if isRequestPayloadPresent inst then JObj [] else JNull) in
      if isRequestPayloadPresent inst then
        (if isBodyPresent inst then Inr (body r)
         else getPayloadFromParams Number JSON_parse (query r) (jsonSchema_input cfg))
      else Inr payload)"

definition requestHandler ::
  "(jsval \<Rightarrow> jsnum) \<Rightarrow> (jsval \<Rightarrow> js_error + jsval) \<Rightarrow> InstalledRoute \<Rightarrow> RouteConfig \<Rightarrow>
   Query option \<Rightarrow> Request \<Rightarrow> Handled" where
  "requestHandler Number JSON_parse inst cfg this_handler r =
     (case this_handler of
        None \<Rightarrow>
          \<lparr> reply = Rejects (Error ''Validator and query are not defined''), handler_calls = [] \<rparr>
      | Some h \<Rightarrow>
          (case extractPayload Number JSON_parse inst cfg r of
             Inl e \<Rightarrow> \<lparr> reply = Rejects e, handler_calls = [] \<rparr>
           | Inr payload \<Rightarrow>
               (case map_option (\<lambda>z. safeParse z payload) (zodSchemas_input cfg) of
                  None \<Rightarrow>
                    \<lparr> reply = Sends 400 (JObj [(''message'', JStr ''Invalid request payload sent''),
                                                (''errors'', JUndefined)]),
                      handler_calls = [] \<rparr>
                | Some (SafeParseError errs) \<Rightarrow>
                    \<lparr> reply = Sends 400 (JObj [(''message'', JStr ''Invalid request payload sent''),
                                                (''errors'', JArr errs)]),
                      handler_calls = [] \<rparr>
                | Some SafeParseSuccess \<Rightarrow>
                    (let ctx = new_Context r in
                     case h ctx payload of
                       Fulfilled output \<Rightarrow>
                         \<lparr> reply = Sends 200 output, handler_calls = [(ctx, payload)] \<rparr>
                     | Rejected e \<Rightarrow>
                         (case processException e of
                            Inl err \<Rightarrow> \<lparr> reply = Rejects err, handler_calls = [(ctx, payload)] \<rparr>
                          | Inr m \<Rightarrow>
                              \<lparr> reply = Sends 500 (JObj [(''message'', m)]),
                                handler_calls = [(ctx, payload)] \<rparr>)))))"

section \<open>router.ts\<close>

text \<open>
  \<open>OpenApiBuilder\<close> belongs to the openapi3-ts package, a dependency of the worker. Of
  its document the model keeps the title and the paths (path, then HTTP method, then
  operation object); the other fields are constants of the library. \<open>addTitle\<close> stores the
  title; \<open>addPath(path, item)\<close> stores under \<open>path\<close> the members of the path item already
  there, overridden and extended by those of \<open>item\<close>.
\<close>

record OpenApiBuilder =
  title :: string
  paths :: "(string \<times> (string \<times> jsval) list) list"

definition OpenApiBuilder_create :: OpenApiBuilder where
  "OpenApiBuilder_create = \<lparr> title = ''app'', paths = [] \<rparr>"

definition addTitle :: "string \<Rightarrow> OpenApiBuilder \<Rightarrow> OpenApiBuilder" where
  "addTitle t b = b\<lparr> title := t \<rparr>"

definition spread :: "(string \<times> jsval) list \<Rightarrow> (string \<times> jsval) list \<Rightarrow> (string \<times> jsval) list" where
  "spread old new = fold (\<lambda>(k, v) acc. AList.update k v acc) new old"

definition addPath :: "string \<Rightarrow> (string \<times> jsval) list \<Rightarrow> OpenApiBuilder \<Rightarrow> OpenApiBuilder" where
  "addPath p pathItem b =
     b\<lparr> paths :=
          AList.update p
            (spread (case map_of (paths b) p of None \<Rightarrow> [] | Some item \<Rightarrow> item) pathItem)
            (paths b) \<rparr>"

record RouterConfig =
  name :: string
  baseUrl :: string

text \<open>
  A \<open>Route\<close> object holds a reference to its configuration object, which every route
  value refined from it shares, the updater closure, which is the index \<open>_addRoute\<close>
  captured, and its own handler field.
\<close>

record Route =
  config_ref :: nat
  updater :: nat
  handler :: "Query option"

text \<open>
  The Router (its configuration, its \<open>routes\<close> array of references to Route objects, its
  builder) together with the store of the objects it points into: \<open>route_objs\<close> are the
  Route objects ever constructed, \<open>config_objs\<close> the RouteConfig objects, both in order
  of creation, a reference being the position. An entry \<open>None\<close> of \<open>routes\<close> is a hole
  of the JavaScript array.
\<close>

record Router =
  config :: RouterConfig
  routes :: "nat option list"
  openApiBuilder :: OpenApiBuilder
  route_objs :: "Route list"
  config_objs :: "RouteConfig list"

definition new_Router :: "RouterConfig \<Rightarrow> Router" where
  "new_Router c =
     \<lparr> config = c, routes = [], openApiBuilder = OpenApiBuilder_create,
       route_objs = [], config_objs = [] \<rparr>"

text \<open>\<open>xs[i] = v\<close> on a JavaScript array: past the end the array grows, leaving holes.\<close>

definition js_array_set :: "'a option list \<Rightarrow> nat \<Rightarrow> 'a \<Rightarrow> 'a option list" where
  "js_array_set xs i v =
     (if i < length xs then xs[i := Some v]
      else xs @ replicate (i - length xs) None @ [Some v])"

subsection \<open>Router._addRoute, Router.query, Router.mutation\<close>

definition addRoute_Router :: "Router \<Rightarrow> RouteConfig \<Rightarrow> nat \<times> Router" where
  "addRoute_Router s cfg =
     (let index = length (routes s);
          route = \<lparr> config_ref = length (config_objs s), updater = index, handler = None \<rparr>;
          this = length (route_objs s)
      in (this,
          s\<lparr> config_objs := config_objs s @ [cfg],
             route_objs := route_objs s @ [route],
             routes := routes s @ [Some this] \<rparr>))"

definition query_Router :: "Router \<Rightarrow> string \<Rightarrow> nat \<times> Router" where
  "query_Router s op_id =
     addRoute_Router s
       \<lparr> opId = op_id, opType = ''query'', method = ''get'',
         url = baseUrl (config s) @ ''/'' @ op_id,
         jsonSchema_input = JObj [(''type'', JStr ''null'')],
         jsonSchema_output = JObj [],
         zodSchemas_input = Some z_null,
         zodSchemas_output = Some z_any \<rparr>"

definition mutation_Router :: "Router \<Rightarrow> string \<Rightarrow> nat \<times> Router" where
  "mutation_Router s op_id =
     addRoute_Router s
       \<lparr> opId = op_id, opType = ''mutation'', method = ''post'',
         url = baseUrl (config s) @ ''/'' @ op_id,
         jsonSchema_input = JObj [],
         jsonSchema_output = JObj [(''type'', JStr ''null'')],
         zodSchemas_input = Some z_any,
         zodSchemas_output = Some z_null \<rparr>"

subsection \<open>The builder methods of Route\<close>

text \<open>
  A method is called on a reference \<open>this\<close> to a Route object and returns a reference: the
  same one, or that of the Route it constructed. A reference a program holds always points
  to an object; \<open>None\<close> is the answer for one that does not.
\<close>

definition this_route :: "Router \<Rightarrow> nat \<Rightarrow> (Route \<times> RouteConfig) option" where
  "this_route s this =
     (if this < length (route_objs s) \<and> config_ref (route_objs s ! this) < length (config_objs s)
      then Some (route_objs s ! this, config_objs s ! config_ref (route_objs s ! this))
      else None)"

definition method_Route :: "Router \<Rightarrow> nat \<Rightarrow> string \<Rightarrow> (nat \<times> Router) option" where
  "method_Route s this m =
     (case this_route s this of
        None \<Rightarrow> None
      | Some (r, cfg) \<Rightarrow>
          Some (this, s\<lparr> config_objs := (config_objs s)[config_ref r := cfg\<lparr> method := m \<rparr>] \<rparr>))"

definition url_Route :: "Router \<Rightarrow> nat \<Rightarrow> string \<Rightarrow> (nat \<times> Router) option" where
  "url_Route s this u =
     (case this_route s this of
        None \<Rightarrow> None
      | Some (r, cfg) \<Rightarrow>
          Some (this, s\<lparr> config_objs := (config_objs s)[config_ref r := cfg\<lparr> url := u \<rparr>] \<rparr>))"

definition input_Route :: "Router \<Rightarrow> nat \<Rightarrow> ZodType \<Rightarrow> (nat \<times> Router) option" where
  "input_Route s this schema =
     (case this_route s this of
        None \<Rightarrow> None
      | Some (r, cfg) \<Rightarrow>
          (let cfg' = cfg\<lparr> zodSchemas_input := Some schema,
                           jsonSchema_input :=
                             JObj (AList.delete ''$schema'' (zodToJsonSchema schema)) \<rparr>;
               r' = \<lparr> config_ref = config_ref r, updater = updater r, handler = None \<rparr>;
               new = length (route_objs s)
           in Some (new,
                    s\<lparr> config_objs := (config_objs s)[config_ref r := cfg'],
                       route_objs := route_objs s @ [r'],
                       routes := js_array_set (routes s) (updater r) new \<rparr>)))"

definition output_Route :: "Router \<Rightarrow> nat \<Rightarrow> ZodType \<Rightarrow> (nat \<times> Router) option" where
  "output_Route s this schema =
     (case this_route s this of
        None \<Rightarrow> None
      | Some (r, cfg) \<Rightarrow>
          (let cfg' = cfg\<lparr> zodSchemas_output := Some schema,
                           jsonSchema_output :=
                             JObj (AList.delete ''$schema'' (zodToJsonSchema schema)) \<rparr>;
               r' = \<lparr> config_ref = config_ref r, updater = updater r, handler = None \<rparr>;
               new = length (route_objs s)
           in Some (new,
                    s\<lparr> config_objs := (config_objs s)[config_ref r := cfg'],
                       route_objs := route_objs s @ [r'],
                       routes := js_array_set (routes s) (updater r) new \<rparr>)))"

definition fn_Route :: "Router \<Rightarrow> nat \<Rightarrow> Query \<Rightarrow> (nat \<times> Router) option" where
  "fn_Route s this handlerFn =
     (case this_route s this of
        None \<Rightarrow> None
      | Some (r, cfg) \<Rightarrow>
          Some (this, s\<lparr> route_objs := (route_objs s)[this := r\<lparr> handler := Some handlerFn \<rparr>] \<rparr>))"

subsection \<open>Router._generateOpenApi\<close>

text \<open>
  The \<open>forEach\<close> over \<open>this.routes\<close>: a hole is skipped; an exception thrown by
  \<open>_getOpenAPIOperation\<close> ends the loop, with the builder as it is by then.
\<close>

fun addPaths ::
  "Router \<Rightarrow> nat option list \<Rightarrow> OpenApiBuilder \<Rightarrow> js_error option \<times> OpenApiBuilder" where
  "addPaths s [] b = (None, b)"
| "addPaths s (None # rs) b = addPaths s rs b"
| "addPaths s (Some a # rs) b =
     (case this_route s a of
        None \<Rightarrow> (Some TypeError, b)
      | Some (r, cfg) \<Rightarrow>
          (case getOpenAPIOperation cfg of
             Inl e \<Rightarrow> (Some e, b)
           | Inr ope \<Rightarrow>
               addPaths s rs (addPath (path ope) [(http_method ope, operation ope)] b)))"

definition generateOpenApi :: "Router \<Rightarrow> js_error option \<times> Router" where
  "generateOpenApi s =
     (let (err, b) = addPaths s (routes s) (addTitle (name (config s)) (openApiBuilder s))
      in (err, s\<lparr> openApiBuilder := b \<rparr>))"

definition getOpenApiSpec :: "Router \<Rightarrow> OpenApiBuilder" where
  "getOpenApiSpec s = openApiBuilder s"

subsection \<open>Router._initialiseRoutes\<close>

text \<open>
  \<open>_initialiseRoutes\<close> calls \<open>addRoute\<close> on the Route object of every slot.
  \<open>dispatch\<close> is the request handler installed for slot \<open>i\<close>, run on a request while
  the registry is as it was at installation.
\<close>

definition dispatch ::
  "(jsval \<Rightarrow> jsnum) \<Rightarrow> (jsval \<Rightarrow> js_error + jsval) \<Rightarrow> Router \<Rightarrow> nat \<Rightarrow> Request \<Rightarrow>
   (js_error + Handled) option" where
  "dispatch Number JSON_parse s i r =
     (if i < length (routes s) then
        (case routes s ! i of
           None \<Rightarrow> None
         | Some a \<Rightarrow>
             (case this_route s a of
                None \<Rightarrow> None
              | Some (rt, cfg) \<Rightarrow>
                  (case addRoute cfg of
                     Inl e \<Rightarrow> Some (Inl e)
                   | Inr inst \<Rightarrow>
                       Some (Inr (requestHandler Number JSON_parse inst cfg (handler rt) r)))))
      else None)"

section \<open>Programs over the builder interface\<close>

text \<open>
  A builder chain \<open>router.query(id).input(..).fn(..)\<close> is a list of calls, each made on
  the reference the call before returned. A start-up program is a list of commands: the
  two factories of the Router, and calls on references obtained earlier.
\<close>

datatype Call = Input ZodType | Output ZodType | Fn Query | Method string | Url string

fun call :: "Call \<Rightarrow> Router \<Rightarrow> nat \<Rightarrow> (nat \<times> Router) option" where
  "call (Input schema) s this = input_Route s this schema"
| "call (Output schema) s this = output_Route s this schema"
| "call (Fn f) s this = fn_Route s this f"
| "call (Method m) s this = method_Route s this m"
| "call (Url u) s this = url_Route s this u"

fun chain :: "Call list \<Rightarrow> nat \<times> Router \<Rightarrow> (nat \<times> Router) option" where
  "chain [] hs = Some hs"
| "chain (c # cs) (this, s) =
     (case call c s this of None \<Rightarrow> None | Some hs' \<Rightarrow> chain cs hs')"

datatype Command = Query_cmd string | Mutation_cmd string | Call_cmd nat Call

fun step :: "Command \<Rightarrow> Router \<Rightarrow> (nat \<times> Router) option" where
  "step (Query_cmd op_id) s = Some (query_Router s op_id)"
| "step (Mutation_cmd op_id) s = Some (mutation_Router s op_id)"
| "step (Call_cmd this c) s = call c s this"

fun run :: "Command list \<Rightarrow> Router \<Rightarrow> Router option" where
  "run [] s = Some s"
| "run (c # cs) s =
     (case step c s of None \<Rightarrow> None | Some (h, s') \<Rightarrow> run cs s')"

section \<open>Example values\<close>

text \<open>
  Closed examples need the two runtime functions at concrete arguments. On a string of at
  most fifteen decimal digits, whose value a double holds exactly, \<open>example_Number\<close>
  agrees with \<open>Number\<close>, as it does on the empty string; \<open>example_JSON_parse\<close> agrees
  with \<open>JSON.parse\<close> on the literals \<open>true\<close>, \<open>false\<close>, \<open>null\<close> and on such a
  string of digits, where a leading zero before another digit is a syntax error. The
  examples apply them to no other argument (not to longer numerals, signs, fractions or
  exponents, nor to JSON strings, arrays and objects); the properties proved below hold
  for every \<open>Number\<close> and \<open>JSON_parse\<close>.
\<close>

definition digit :: "char \<Rightarrow> rat option" where
  "digit c = map_of (zip ''0123456789'' [0, 1, 2, 3, 4, 5, 6, 7, 8, 9]) c"

fun decimal :: "string \<Rightarrow> rat \<Rightarrow> rat option" where
  "decimal [] acc = Some acc"
| "decimal (c # cs) acc =
     (case digit c of None \<Rightarrow> None | Some d \<Rightarrow> decimal cs (acc * 10 + d))"

definition example_Number :: "jsval \<Rightarrow> jsnum" where
  "example_Number v =
     (case v of
        JStr s \<Rightarrow> (case decimal s 0 of None \<Rightarrow> NaN | Some q \<Rightarrow> Fin q)
      | _ \<Rightarrow> NaN)"

definition example_JSON_parse :: "jsval \<Rightarrow> js_error + jsval" where
  "example_JSON_parse v =
     (case v of
        JStr s \<Rightarrow>
          if s = ''true'' then Inr (JBool True)
          else if s = ''false'' then Inr (JBool False)
          else if s = ''null'' then Inr JNull
          else if s = [] \<or> (hd s = CHR ''0'' \<and> tl s \<noteq> []) then Inl SyntaxError
          else (case decimal s 0 of None \<Rightarrow> Inl SyntaxError | Some q \<Rightarrow> Inr (JNum (Fin q)))
      | _ \<Rightarrow> Inl SyntaxError)"

text \<open>Handlers that return a fixed value, or throw one.\<close>

definition returns :: "jsval \<Rightarrow> Query" where
  "returns v ctx input = Fulfilled v"

definition throws :: "jsval \<Rightarrow> Query" where
  "throws e ctx input = Rejected e"

text \<open>
  The schema \<open>z.object({ name: z.string(), count: z.number(), flag: z.boolean(),
  limit: z.number().nullable() }).partial()\<close>. Every field may be missing; a field that
  is there with the wrong type is one issue, at the field's path; keys the schema does not
  name are stripped without an issue.
\<close>

definition field_issues ::
  "(jsval \<Rightarrow> bool) \<Rightarrow> string \<Rightarrow> string \<Rightarrow> (string \<times> jsval) list \<Rightarrow> jsval list" where
  "field_issues accepts expected key ps =
     (case map_of ps key of
        None \<Rightarrow> []
      | Some v \<Rightarrow>
          if v = JUndefined \<or> accepts v then [] else [invalid_type expected v [JStr key]])"

fun is_string :: "jsval \<Rightarrow> bool" where
  "is_string (JStr s) = True"
| "is_string v = False"

fun is_number :: "jsval \<Rightarrow> bool" where
  "is_number (JNum n) = (n \<noteq> NaN)"
| "is_number v = False"

fun is_boolean :: "jsval \<Rightarrow> bool" where
  "is_boolean (JBool b) = True"
| "is_boolean v = False"

fun is_number_or_null :: "jsval \<Rightarrow> bool" where
  "is_number_or_null (JNum n) = (n \<noteq> NaN)"
| "is_number_or_null JNull = True"
| "is_number_or_null v = False"

definition z_example :: ZodType where
  "z_example =
     \<lparr> typeName = ''ZodObject'',
       issues = (\<lambda>v. case v of
                        JObj ps \<Rightarrow>
                          field_issues is_string ''string'' ''name'' ps
                          @ field_issues is_number ''number'' ''count'' ps
                          @ field_issues is_boolean ''boolean'' ''flag'' ps
                          @ field_issues is_number_or_null ''number'' ''limit'' ps
                      | _ \<Rightarrow> [invalid_type ''object'' v []]),
       zodToJsonSchema =
         [(''$schema'', JStr ''http://json-schema.org/draft-07/schema#''),
          (''type'', JStr ''object''),
          (''properties'',
             JObj [(''name'', JObj [(''type'', JStr ''string'')]),
                   (''count'', JObj [(''type'', JStr ''number'')]),
                   (''flag'', JObj [(''type'', JStr ''boolean'')]),
                   (''limit'', JObj [(''type'', JArr [JStr ''number'', JStr ''null''])])]),
          (''additionalProperties'', JBool False)] \<rparr>"

text \<open>\<open>z.string()\<close>: a string passes, anything else is one issue.\<close>

definition z_string :: ZodType where
  "z_string =
     \<lparr> typeName = ''ZodString'',
       issues = (\<lambda>v. if is_string v then [] else [invalid_type ''string'' v []]),
       zodToJsonSchema =
         [(''$schema'', JStr ''http://json-schema.org/draft-07/schema#''),
          (''type'', JStr ''string'')] \<rparr>"

definition example_request :: Request where
  "example_request =
     \<lparr> body = JObj [(''title'', JStr ''write'')],
       query = [(''name'', JStr ''Ada''), (''count'', JStr ''42''), (''flag'', JStr ''yes''),
                (''limit'', JStr ''null''), (''extra'', JStr ''1'')],
       headers = [(''accept'', JStr ''*/*'')] \<rparr>"

definition example_router :: Router where
  "example_router = new_Router \<lparr> name = ''myServer'', baseUrl = ''/v1'' \<rparr>"

text \<open>
  The routes \<open>router.mutation("addTodo")\<close> and \<open>router.query("operate")\<close> as the Router
  of a server with base URL \<open>/v1\<close> creates them, and what \<open>addRoute\<close> fixes for the first.
\<close>

definition addTodo_config :: RouteConfig where
  "addTodo_config =
     \<lparr> opId = ''addTodo'', opType = ''mutation'', method = ''post'', url = ''/v1/addTodo'',
       jsonSchema_input = JObj [], jsonSchema_output = JObj [(''type'', JStr ''null'')],
       zodSchemas_input = Some z_any, zodSchemas_output = Some z_null \<rparr>"

definition addTodo_installed :: InstalledRoute where
  "addTodo_installed =
     \<lparr> isBodyPresent = True, isRequestPayloadPresent = True, verb = POST,
       mounted_at = ''/v1/addTodo'' \<rparr>"

definition operate_config :: RouteConfig where
  "operate_config =
     \<lparr> opId = ''operate'', opType = ''query'', method = ''get'', url = ''/v1/operate'',
       jsonSchema_input = JObj [(''type'', JStr ''null'')], jsonSchema_output = JObj [],
       zodSchemas_input = Some z_null, zodSchemas_output = Some z_any \<rparr>"

text \<open>
  The configurations of \<open>router.query("operate").input(z.string())\<close> and of
  \<open>router.query("operate").input(z_example)\<close>, with what \<open>addRoute\<close> fixes for both.
\<close>

definition text_config :: RouteConfig where
  "text_config =
     operate_config\<lparr> zodSchemas_input := Some z_string,
                      jsonSchema_input := JObj [(''type'', JStr ''string'')] \<rparr>"

definition search_config :: RouteConfig where
  "search_config =
     operate_config\<lparr> zodSchemas_input := Some z_example,
                      jsonSchema_input :=
                        JObj (AList.delete ''$schema'' (zodToJsonSchema z_example)) \<rparr>"

definition search_installed :: InstalledRoute where
  "search_installed =
     \<lparr> isBodyPresent = False, isRequestPayloadPresent = True, verb = GET,
       mounted_at = ''/v1/operate'' \<rparr>"

section \<open>Notions of the specification\<close>

text \<open>
  The coercion of a raw query value by the declared type, in the words of the
  specification: a string passes through, a boolean is true exactly for the literal
  \<open>"true"\<close>, a number or an integer is parsed numerically, anything else is parsed as a
  JSON literal (which may fail).
\<close>

definition coerced_by_type ::
  "(jsval \<Rightarrow> jsnum) \<Rightarrow> (jsval \<Rightarrow> js_error + jsval) \<Rightarrow> jsval \<Rightarrow> jsval \<Rightarrow> js_error + jsval" where
  "coerced_by_type Number JSON_parse declared raw =
     (if declared = JStr ''string'' then Inr raw
      else if declared = JStr ''boolean'' then Inr (JBool (raw = JStr ''true''))
      else if declared = JStr ''number'' \<or> declared = JStr ''integer'' then Inr (JNum (Number raw))
      else JSON_parse raw)"

text \<open>
  The handler a builder chain leaves attached, read off the chain: \<open>fn\<close> attaches one,
  \<open>input\<close> and \<open>output\<close> answer with a route value that has none, \<open>method\<close> and
  \<open>url\<close> change nothing.
\<close>

fun attached :: "Call list \<Rightarrow> Query option \<Rightarrow> Query option" where
  "attached [] h = h"
| "attached (Input schema # cs) h = attached cs None"
| "attached (Output schema # cs) h = attached cs None"
| "attached (Fn f # cs) h = attached cs (Some f)"
| "attached (Method m # cs) h = attached cs h"
| "attached (Url u # cs) h = attached cs h"

fun is_setter :: "Call \<Rightarrow> bool" where
  "is_setter (Method m) = True"
| "is_setter (Url u) = True"
| "is_setter c = False"

fun is_factory :: "Command \<Rightarrow> bool" where
  "is_factory (Query_cmd op_id) = True"
| "is_factory (Mutation_cmd op_id) = True"
| "is_factory (Call_cmd this c) = False"

text \<open>
  Route objects are numbered in the order of their construction, so the most recently
  refined route value of slot \<open>i\<close> is the Route object with the greatest reference among
  those whose updater writes slot \<open>i\<close>.
\<close>

definition latest_in_slot :: "Router \<Rightarrow> nat \<Rightarrow> nat \<Rightarrow> bool" where
  "latest_in_slot s i a \<longleftrightarrow>
     a < length (route_objs s) \<and> updater (route_objs s ! a) = i
     \<and> (\<forall>b < length (route_objs s). updater (route_objs s ! b) = i \<longrightarrow> b \<le> a)"

text \<open>
  The invariant of the registry: every Route object points to a slot and to a
  configuration object that exist, every slot holds the latest Route object made for it,
  and every configuration has both zod schemas.
\<close>

definition registry_ok :: "Router \<Rightarrow> bool" where
  "registry_ok s \<longleftrightarrow>
     (\<forall>a < length (route_objs s).
         updater (route_objs s ! a) < length (routes s)
       \<and> config_ref (route_objs s ! a) < length (config_objs s))
   \<and> (\<forall>i < length (routes s). \<exists>a. routes s ! i = Some a \<and> latest_in_slot s i a)
   \<and> (\<forall>c < length (config_objs s).
         zodSchemas_input (config_objs s ! c) \<noteq> None
       \<and> zodSchemas_output (config_objs s ! c) \<noteq> None)"

text \<open>A request to the handler installed for slot \<open>i\<close>, once a builder chain has run.\<close>

definition dispatch_after ::
  "(jsval \<Rightarrow> jsnum) \<Rightarrow> (jsval \<Rightarrow> js_error + jsval) \<Rightarrow> (nat \<times> Router) option \<Rightarrow> nat \<Rightarrow>
   Request \<Rightarrow> (js_error + Handled) option" where
  "dispatch_after Number JSON_parse hs i r =
     (case hs of None \<Rightarrow> None | Some (h, s) \<Rightarrow> dispatch Number JSON_parse s i r)"

text \<open>
  The ordered route list as \<open>_generateOpenApi\<close> reads it: the configuration of the Route
  object in every slot (holes skipped), and the operations it adds to the builder, in
  order, up to the first exception.
\<close>

definition route_configs :: "Router \<Rightarrow> RouteConfig option list" where
  "route_configs s =
     map (\<lambda>a. map_option snd (this_route s a)) (List.map_filter id (routes s))"

fun operations ::
  "RouteConfig option list \<Rightarrow> (string \<times> string \<times> jsval) list \<times> js_error option" where
  "operations [] = ([], None)"
| "operations (None # cs) = ([], Some TypeError)"
| "operations (Some cfg # cs) =
     (case getOpenAPIOperation cfg of
        Inl e \<Rightarrow> ([], Some e)
      | Inr ope \<Rightarrow>
          (case operations cs of
             (ops, err) \<Rightarrow> ((path ope, http_method ope, operation ope) # ops, err)))"

text \<open>\<open>addPath(path, { [method]: operation })\<close> on the paths of the document.\<close>

definition put_operation ::
  "string \<times> string \<times> jsval \<Rightarrow> (string \<times> (string \<times> jsval) list) list \<Rightarrow>
   (string \<times> (string \<times> jsval) list) list" where
  "put_operation x P =
     (case x of
        (p, m, ope) \<Rightarrow>
          AList.update p
            (AList.update m ope (case map_of P p of None \<Rightarrow> [] | Some item \<Rightarrow> item)) P)"

text \<open>
  An association list stands for a JavaScript object only when its keys are distinct: the
  condition on the paths of a document, and on every path item.
\<close>

definition wellformed_paths :: "(string \<times> (string \<times> jsval) list) list \<Rightarrow> bool" where
  "wellformed_paths P \<longleftrightarrow>
     distinct (map fst P) \<and> list_all (\<lambda>item. distinct (map fst item)) (map snd P)"

text \<open>
  The registry state a builder chain ends in (the router's configuration, its route list
  and the objects behind it), and the paths of the document generated then.
\<close>

definition registry_of ::
  "(nat \<times> Router) option \<Rightarrow> (RouterConfig \<times> nat option list \<times> Route list \<times> RouteConfig list) option" where
  "registry_of hs =
     (case hs of
        None \<Rightarrow> None
      | Some (h, s) \<Rightarrow> Some (config s, routes s, route_objs s, config_objs s))"

definition generated_paths :: "(nat \<times> Router) option \<Rightarrow> string list option" where
  "generated_paths hs =
     (case hs of
        None \<Rightarrow> None
      | Some (h, s) \<Rightarrow> Some (map fst (paths (getOpenApiSpec (snd (generateOpenApi s))))))"

section \<open>Properties of the helpers and of the request handler\<close>

lemma inherited_message [simp]: "inherited ''message'' = JUndefined"
  by (simp add: inherited_def Object_prototype_names_def)

lemma processException_total:
  "(\<exists>m. processException e = Inr m) \<longleftrightarrow> (e \<noteq> JNull \<and> e \<noteq> JUndefined)"
  by (cases e) (simp_all add: processException_def)

lemma processException_null:
  "e = JNull \<or> e = JUndefined \<Longrightarrow> processException e = Inl TypeError"
  by (auto simp: processException_def)

text \<open>The request handler past validation: the reply is decided by how the callback settles.\<close>

lemma requestHandler_valid:
  assumes "extractPayload Number JSON_parse inst cfg r = Inr payload"
    and "zodSchemas_input cfg = Some z"
    and "safeParse z payload = SafeParseSuccess"
  shows "requestHandler Number JSON_parse inst cfg (Some h) r =
     (case h (new_Context r) payload of
        Fulfilled output \<Rightarrow>
          \<lparr> reply = Sends 200 output, handler_calls = [(new_Context r, payload)] \<rparr>
      | Rejected e \<Rightarrow>
          (case processException e of
             Inl err \<Rightarrow> \<lparr> reply = Rejects err, handler_calls = [(new_Context r, payload)] \<rparr>
           | Inr m \<Rightarrow>
               \<lparr> reply = Sends 500 (JObj [(''message'', m)]),
                 handler_calls = [(new_Context r, payload)] \<rparr>))"
  using assms by (simp add: requestHandler_def Let_def)

lemma requestHandler_invalid:
  assumes "extractPayload Number JSON_parse inst cfg r = Inr payload"
    and "zodSchemas_input cfg = Some z"
    and "safeParse z payload = SafeParseError errs"
  shows "requestHandler Number JSON_parse inst cfg (Some h) r =
           \<lparr> reply = Sends 400 (JObj [(''message'', JStr ''Invalid request payload sent''),
                                       (''errors'', JArr errs)]),
             handler_calls = [] \<rparr>"
  using assms by (simp add: requestHandler_def)

lemma addTodo_addRoute: "addRoute addTodo_config = Inr addTodo_installed"
  by (simp add: addRoute_def addTodo_config_def addTodo_installed_def isZodTypeNull_def z_any_def)

lemma addTodo_payload:
  "extractPayload N P addTodo_installed addTodo_config r = Inr (body r)"
  by (simp add: extractPayload_def addTodo_installed_def)

lemma addTodo_input: "zodSchemas_input addTodo_config = Some z_any"
  by (simp add: addTodo_config_def)

lemma z_any_accepts: "safeParse z_any v = SafeParseSuccess"
  by (simp add: safeParse_def z_any_def)

lemma z_null_accepts: "safeParse z_null JNull = SafeParseSuccess"
  by (simp add: safeParse_def z_null_def)

subsection \<open>Handler failures\<close>

text \<open>
  C10. The 500 path is not total. When the callback throws or rejects with \<open>null\<close> or
  \<open>undefined\<close>, \<open>processException\<close> reads \<open>message\<close> on that value and throws a
  TypeError, so the request handler's promise rejects and no 500 response is written.
  \<open>processException\<close> returns a message exactly for the values other than these two.
\<close>

theorem processException_null_undefined:
  assumes "extractPayload Number JSON_parse inst cfg r = Inr payload"
    and "zodSchemas_input cfg = Some z"
    and "safeParse z payload = SafeParseSuccess"
    and "h (new_Context r) payload = Rejected e"
    and "e = JNull \<or> e = JUndefined"
  shows "processException e = Inl TypeError
       \<and> reply (requestHandler Number JSON_parse inst cfg (Some h) r) = Rejects TypeError
       \<and> (\<forall>e'. (\<exists>m. processException e' = Inr m) \<longleftrightarrow> (e' \<noteq> JNull \<and> e' \<noteq> JUndefined))"
proof -
  have pe: "processException e = Inl TypeError"
    using assms(5) by (rule processException_null)
  have "reply (requestHandler Number JSON_parse inst cfg (Some h) r) = Rejects TypeError"
    by (simp add: requestHandler_valid [OF assms(1-3)] assms(4) pe)
  with pe processException_total show ?thesis by blast
qed

theorem processException_null_undefined_witness:
  "processException JNull = Inl TypeError
   \<and> reply (requestHandler example_Number example_JSON_parse addTodo_installed addTodo_config
        (Some (throws JNull)) example_request) = Rejects TypeError"
  using processException_null_undefined
    [of example_Number example_JSON_parse addTodo_installed addTodo_config
      example_request "body example_request" z_any "throws JNull" JNull]
  by (simp add: addTodo_payload addTodo_input z_any_accepts throws_def)

text \<open>
  C2, as amended. When the callback throws or rejects with a value \<open>e\<close> other than
  \<open>null\<close> and \<open>undefined\<close>, the request handler answers 500 with the body
  \<open>{message: m}\<close>, where \<open>m\<close> is \<open>e\<close> itself when \<open>e\<close> is a string, else the
  \<open>message\<close> field of \<open>e\<close> when that is a non-empty string, else the text
  "Internal server error occured".
\<close>

theorem handler_failure_500:
  assumes "extractPayload Number JSON_parse inst cfg r = Inr payload"
    and "zodSchemas_input cfg = Some z"
    and "safeParse z payload = SafeParseSuccess"
    and "h (new_Context r) payload = Rejected e"
    and "e \<noteq> JNull" and "e \<noteq> JUndefined"
  shows "\<exists>m. requestHandler Number JSON_parse inst cfg (Some h) r =
           \<lparr> reply = Sends 500 (JObj [(''message'', m)]),
             handler_calls = [(new_Context r, payload)] \<rparr>
       \<and> (typeof e = ''string'' \<longrightarrow> m = e)
       \<and> (\<forall>s. typeof e \<noteq> ''string'' \<and> js_get e ''message'' = Inr (JStr s) \<and> s \<noteq> [] \<longrightarrow> m = JStr s)
       \<and> (typeof e \<noteq> ''string'' \<and> (\<forall>s. js_get e ''message'' = Inr (JStr s) \<longrightarrow> s = []) \<longrightarrow>
            m = JStr ''Internal server error occured'')"
proof -
  from assms(5,6) obtain m where m: "processException e = Inr m"
    using processException_total by blast
  have rh: "requestHandler Number JSON_parse inst cfg (Some h) r =
           \<lparr> reply = Sends 500 (JObj [(''message'', m)]),
             handler_calls = [(new_Context r, payload)] \<rparr>"
    by (simp add: requestHandler_valid [OF assms(1-3)] assms(4) m)
  have a: "typeof e = ''string'' \<longrightarrow> m = e"
    using m by (auto simp add: processException_def)
  have b: "\<forall>s. typeof e \<noteq> ''string'' \<and> js_get e ''message'' = Inr (JStr s) \<and> s \<noteq> [] \<longrightarrow> m = JStr s"
    using m by (auto simp add: processException_def)
  have c: "typeof e \<noteq> ''string'' \<and> (\<forall>s. js_get e ''message'' = Inr (JStr s) \<longrightarrow> s = []) \<longrightarrow>
            m = JStr ''Internal server error occured''"
  proof (intro impI, elim conjE)
    assume ns: "typeof e \<noteq> ''string''"
      and em: "\<forall>s. js_get e ''message'' = Inr (JStr s) \<longrightarrow> s = []"
    show "m = JStr ''Internal server error occured''"
    proof (cases "js_get e ''message''")
      case (Inl err)
      with m ns show ?thesis by (simp add: processException_def)
    next
      case (Inr v)
      with em have "\<not> (truthy v \<and> typeof v = ''string'')" by (cases v) auto
      with m ns Inr show ?thesis by (auto simp add: processException_def)
    qed
  qed
  from rh a b c show ?thesis by blast
qed

theorem handler_failure_500_witness:
  "requestHandler example_Number example_JSON_parse addTodo_installed addTodo_config
     (Some (throws (JObj [(''message'', JStr ''x'')]))) example_request =
     \<lparr> reply = Sends 500 (JObj [(''message'', JStr ''x'')]),
       handler_calls = [(new_Context example_request, body example_request)] \<rparr>"
  using handler_failure_500
    [of example_Number example_JSON_parse addTodo_installed addTodo_config
      example_request "body example_request" z_any "throws (JObj [(''message'', JStr ''x'')])"
      "JObj [(''message'', JStr ''x'')]"]
  by (auto simp add: addTodo_payload addTodo_input z_any_accepts throws_def own_or_inherited_def)

text \<open>
  C2 as stated fails at two thrown values: an object whose \<open>message\<close> is the empty
  string gets the fallback text, not its message; and for \<open>null\<close> no response is
  written at all.
\<close>

theorem handler_failure_counterexample:
  "js_get (JObj [(''message'', JStr [])]) ''message'' = Inr (JStr [])
   \<and> reply (requestHandler example_Number example_JSON_parse addTodo_installed addTodo_config
        (Some (throws (JObj [(''message'', JStr [])]))) example_request) =
       Sends 500 (JObj [(''message'', JStr ''Internal server error occured'')])
   \<and> reply (requestHandler example_Number example_JSON_parse addTodo_installed addTodo_config
        (Some (throws JNull)) example_request) = Rejects TypeError"
  by (simp add: requestHandler_valid [OF addTodo_payload addTodo_input z_any_accepts]
      throws_def processException_def own_or_inherited_def)

subsection \<open>Validation failures\<close>

text \<open>
  C3. When the payload the request handler extracted fails validation against the
  route's input schema, the handler answers 400 with the body
  \<open>{message: "Invalid request payload sent", errors: result.error.issues}\<close>: \<open>errors\<close>
  is the list of issues the validator reported for that payload, which is not empty, and
  the user's callback is not called.
\<close>

theorem invalid_payload_400:
  assumes "extractPayload Number JSON_parse inst cfg r = Inr payload"
    and "zodSchemas_input cfg = Some z"
    and "safeParse z payload \<noteq> SafeParseSuccess"
  shows "requestHandler Number JSON_parse inst cfg (Some h) r =
           \<lparr> reply = Sends 400 (JObj [(''message'', JStr ''Invalid request payload sent''),
                                       (''errors'', JArr (issues z payload))]),
             handler_calls = [] \<rparr>
       \<and> issues z payload \<noteq> []"
proof -
  from assms(3) have ne: "issues z payload \<noteq> []"
    and sp: "safeParse z payload = SafeParseError (issues z payload)"
    by (simp_all add: safeParse_def split: if_splits)
  from requestHandler_invalid [OF assms(1,2) sp] ne show ?thesis by (intro conjI)
qed

theorem invalid_payload_400_witness:
  "requestHandler example_Number example_JSON_parse addTodo_installed
      (addTodo_config\<lparr> zodSchemas_input := Some z_string \<rparr>)
      (Some (returns JNull)) example_request =
     \<lparr> reply =
         Sends 400
           (JObj [(''message'', JStr ''Invalid request payload sent''),
                  (''errors'',
                     JArr [JObj [(''code'', JStr ''invalid_type''),
                                 (''expected'', JStr ''string''),
                                 (''received'', JStr ''object''),
                                 (''path'', JArr []),
                                 (''message'', JStr ''Expected string, received object'')]])]),
       handler_calls = [] \<rparr>"
  using invalid_payload_400
    [of example_Number example_JSON_parse addTodo_installed
      "addTodo_config\<lparr> zodSchemas_input := Some z_string \<rparr>"
      example_request "body example_request" z_string "returns JNull"]
  by (simp add: extractPayload_def addTodo_installed_def example_request_def
      safeParse_def z_string_def invalid_type_def)

section \<open>Properties of the generated OpenAPI operation and of the factories\<close>

lemma getOpenAPIOperation_defined:
  assumes "zodSchemas_input cfg = Some zi" and "zodSchemas_output cfg = Some zo"
  shows "getOpenAPIOperation cfg =
     Inr \<lparr> path = url cfg, http_method = method cfg,
           operation =
             JObj [(''operationId'', JStr (opId cfg)),
                   (''requestBody'',
                      JObj (if typeName zi = ''ZodNull''
                            then [(''description'', JStr (''Request object for '' @ opId cfg)),
                                  (''content'', JObj []),
                                  (''required'', JBool False)]
                            else [(''description'', JStr (''Request object for '' @ opId cfg)),
                                  (''content'',
                                     JObj [(''application/json'',
                                              JObj [(''schema'', jsonSchema_input cfg)])]),
                                  (''required'', JBool True)])),
                   (''responses'',
                      JObj [(if typeName zo = ''ZodNull'' then ''204'' else ''200'',
                             JObj (if typeName zo = ''ZodNull''
                                   then [(''description'',
                                            JStr (''Success response object for '' @ opId cfg))]
                                   else [(''description'',
                                            JStr (''Success response object for '' @ opId cfg)),
                                         (''content'',
                                            JObj [(''application/json'',
                                                     JObj [(''schema'', jsonSchema_output cfg)])])])),
                            (''400'', getErrorResponseSchema),
                            (''500'', getErrorResponseSchema)]),
                   (''x-request-op-type'', JStr (opType cfg))] \<rparr>"
  using assms
  by (simp add: getOpenAPIOperation_def isZodTypeNull_def Let_def js_set_def)

lemma operation_responses:
  "js_get (JObj [(''operationId'', a), (''requestBody'', b), (''responses'', c),
                 (''x-request-op-type'', d)]) ''responses'' = Inr c"
  by (simp add: own_or_inherited_def)

lemma operation_requestBody:
  "js_get (JObj [(''operationId'', a), (''requestBody'', b), (''responses'', c),
                 (''x-request-op-type'', d)]) ''requestBody'' = Inr b"
  by (simp add: own_or_inherited_def)

lemma getOpenAPIOperation_parts:
  assumes "zodSchemas_input cfg = Some zi" and "zodSchemas_output cfg = Some zo"
  shows "\<exists>ope.
      getOpenAPIOperation cfg = Inr ope
    \<and> js_get (operation ope) ''requestBody'' =
        Inr (JObj (if typeName zi = ''ZodNull''
                   then [(''description'', JStr (''Request object for '' @ opId cfg)),
                         (''content'', JObj []),
                         (''required'', JBool False)]
                   else [(''description'', JStr (''Request object for '' @ opId cfg)),
                         (''content'',
                            JObj [(''application/json'',
                                     JObj [(''schema'', jsonSchema_input cfg)])]),
                         (''required'', JBool True)]))
    \<and> js_get (operation ope) ''responses'' =
        Inr (JObj [(if typeName zo = ''ZodNull'' then ''204'' else ''200'',
                    JObj (if typeName zo = ''ZodNull''
                          then [(''description'',
                                   JStr (''Success response object for '' @ opId cfg))]
                          else [(''description'',
                                   JStr (''Success response object for '' @ opId cfg)),
                                (''content'',
                                   JObj [(''application/json'',
                                            JObj [(''schema'', jsonSchema_output cfg)])])])),
                   (''400'', getErrorResponseSchema),
                   (''500'', getErrorResponseSchema)])"
proof -
  obtain ope where ope: "getOpenAPIOperation cfg = Inr ope"
    by (simp add: getOpenAPIOperation_defined [OF assms])
  have op: "operation ope = JObj [(''operationId'', JStr (opId cfg)),
                   (''requestBody'',
                      JObj (if typeName zi = ''ZodNull''
                            then [(''description'', JStr (''Request object for '' @ opId cfg)),
                                  (''content'', JObj []),
                                  (''required'', JBool False)]
                            else [(''description'', JStr (''Request object for '' @ opId cfg)),
                                  (''content'',
                                     JObj [(''application/json'',
                                              JObj [(''schema'', jsonSchema_input cfg)])]),
                                  (''required'', JBool True)])),
                   (''responses'',
                      JObj [(if typeName zo = ''ZodNull'' then ''204'' else ''200'',
                             JObj (if typeName zo = ''ZodNull''
                                   then [(''description'',
                                            JStr (''Success response object for '' @ opId cfg))]
                                   else [(''description'',
                                            JStr (''Success response object for '' @ opId cfg)),
                                         (''content'',
                                            JObj [(''application/json'',
                                                     JObj [(''schema'', jsonSchema_output cfg)])])])),
                            (''400'', getErrorResponseSchema),
                            (''500'', getErrorResponseSchema)]),
                   (''x-request-op-type'', JStr (opType cfg))]"
    using ope unfolding getOpenAPIOperation_defined [OF assms] by auto
  show ?thesis
    by (rule exI [of _ ope]) (simp only: op operation_responses operation_requestBody ope)
qed

text \<open>
  C5. For every route (whose two zod schemas are set, as the Router and the builder always
  leave them), the generated OpenAPI operation records its success response under "204"
  exactly when the output schema is the null-sentinel, and under "200" with an
  application/json body schema otherwise; and its responses always hold "400" and "500"
  with the standard error response object.
\<close>

theorem openapi_success_code:
  assumes "zodSchemas_input cfg = Some zi" and "zodSchemas_output cfg = Some zo"
  shows "\<exists>ope resp.
      getOpenAPIOperation cfg = Inr ope
    \<and> js_get (operation ope) ''responses'' = Inr (JObj resp)
    \<and> (typeName zo = ''ZodNull'' \<longrightarrow>
         map_of resp ''204'' =
           Some (JObj [(''description'', JStr (''Success response object for '' @ opId cfg))])
       \<and> map_of resp ''200'' = None)
    \<and> (typeName zo \<noteq> ''ZodNull'' \<longrightarrow>
         map_of resp ''200'' =
           Some (JObj [(''description'', JStr (''Success response object for '' @ opId cfg)),
                       (''content'',
                          JObj [(''application/json'',
                                   JObj [(''schema'', jsonSchema_output cfg)])])])
       \<and> map_of resp ''204'' = None)
    \<and> map_of resp ''400'' = Some getErrorResponseSchema
    \<and> map_of resp ''500'' = Some getErrorResponseSchema"
proof -
  define ok where "ok = [(''description'', JStr (''Success response object for '' @ opId cfg))]"
  define ok_json where "ok_json =
    [(''description'', JStr (''Success response object for '' @ opId cfg)),
     (''content'', JObj [(''application/json'', JObj [(''schema'', jsonSchema_output cfg)])])]"
  define resp where "resp =
    [(if typeName zo = ''ZodNull'' then ''204'' else ''200'',
      JObj (if typeName zo = ''ZodNull'' then ok else ok_json)),
     (''400'', getErrorResponseSchema), (''500'', getErrorResponseSchema)]"
  obtain ope where ope: "getOpenAPIOperation cfg = Inr ope"
    and r: "js_get (operation ope) ''responses'' = Inr (JObj resp)"
    unfolding resp_def ok_def ok_json_def
    using getOpenAPIOperation_defined [OF assms]
    by (simp only: operation_responses OpenAPIOperation.simps)
  have "map_of resp ''400'' = Some getErrorResponseSchema"
    and "map_of resp ''500'' = Some getErrorResponseSchema"
    and "typeName zo = ''ZodNull'' \<longrightarrow>
           map_of resp ''204'' = Some (JObj ok) \<and> map_of resp ''200'' = None"
    and "typeName zo \<noteq> ''ZodNull'' \<longrightarrow>
           map_of resp ''200'' = Some (JObj ok_json) \<and> map_of resp ''204'' = None"
    by (simp_all add: resp_def)
  with ope r show ?thesis
    unfolding ok_def ok_json_def by blast
qed


theorem openapi_success_code_witness:
  "\<exists>ope resp.
      getOpenAPIOperation operate_config = Inr ope
    \<and> js_get (operation ope) ''responses'' = Inr (JObj resp)
    \<and> map_of resp ''200'' =
         Some (JObj [(''description'', JStr ''Success response object for operate''),
                     (''content'', JObj [(''application/json'', JObj [(''schema'', JObj [])])])])
    \<and> map_of resp ''204'' = None
    \<and> map_of resp ''400'' = Some getErrorResponseSchema
    \<and> map_of resp ''500'' = Some getErrorResponseSchema"
  using openapi_success_code [of operate_config z_null z_any]
  by (simp add: operate_config_def z_any_def)

lemma addRoute_defined:
  assumes "zodSchemas_input cfg = Some zi"
  shows "addRoute cfg =
     Inr \<lparr> isBodyPresent = (method cfg = ''post'' \<or> method cfg = ''put''),
           isRequestPayloadPresent = (typeName zi \<noteq> ''ZodNull''),
           verb = (if method cfg = ''get'' then GET
                   else if method cfg = ''delete'' then DELETE
                   else if method cfg = ''put'' then PUT
                   else POST),
           mounted_at = url cfg \<rparr>"
  using assms by (simp add: addRoute_def isZodTypeNull_def)

lemma z_null_typeName: "typeName z_null = ''ZodNull''"
  by (simp add: z_null_def)

lemma z_any_typeName: "typeName z_any = ''ZodAny''"
  by (simp add: z_any_def)

text \<open>
  C4, as amended. For every route whose input schema is the Router's default null-sentinel
  (a query route with no declared input), the generated OpenAPI operation does not require
  a request body; it advertises "204" exactly when the output schema is the null-sentinel
  too, and "200" otherwise, which is the case of the default output of a query route; and
  on a successful call the request handler answers 200 with the callback's result.
\<close>

theorem null_input_openapi_and_reply:
  assumes "zodSchemas_input cfg = Some z_null" and "zodSchemas_output cfg = Some zo"
    and "h (new_Context r) JNull = Fulfilled out"
  shows "\<exists>ope resp inst.
      getOpenAPIOperation cfg = Inr ope
    \<and> js_get (operation ope) ''requestBody'' =
        Inr (JObj [(''description'', JStr (''Request object for '' @ opId cfg)),
                   (''content'', JObj []), (''required'', JBool False)])
    \<and> js_get (operation ope) ''responses'' = Inr (JObj resp)
    \<and> (map_of resp ''204'' \<noteq> None \<longleftrightarrow> typeName zo = ''ZodNull'')
    \<and> (map_of resp ''200'' \<noteq> None \<longleftrightarrow> typeName zo \<noteq> ''ZodNull'')
    \<and> addRoute cfg = Inr inst
    \<and> requestHandler Number JSON_parse inst cfg (Some h) r =
        \<lparr> reply = Sends 200 out, handler_calls = [(new_Context r, JNull)] \<rparr>"
proof -
  define resp where "resp =
    [(if typeName zo = ''ZodNull'' then ''204'' else ''200'',
      JObj (if typeName zo = ''ZodNull''
            then [(''description'', JStr (''Success response object for '' @ opId cfg))]
            else [(''description'', JStr (''Success response object for '' @ opId cfg)),
                  (''content'',
                     JObj [(''application/json'', JObj [(''schema'', jsonSchema_output cfg)])])])),
     (''400'', getErrorResponseSchema), (''500'', getErrorResponseSchema)]"
  from getOpenAPIOperation_parts [OF assms(1,2)]
  obtain ope where ope: "getOpenAPIOperation cfg = Inr ope"
    and rb: "js_get (operation ope) ''requestBody'' =
        Inr (JObj [(''description'', JStr (''Request object for '' @ opId cfg)),
                   (''content'', JObj []), (''required'', JBool False)])"
    and r: "js_get (operation ope) ''responses'' = Inr (JObj resp)"
    unfolding resp_def by (auto simp add: z_null_typeName)
  have codes: "(map_of resp ''204'' \<noteq> None \<longleftrightarrow> typeName zo = ''ZodNull'')"
    "(map_of resp ''200'' \<noteq> None \<longleftrightarrow> typeName zo \<noteq> ''ZodNull'')"
    by (simp_all add: resp_def)
  obtain inst where inst: "addRoute cfg = Inr inst" and np: "\<not> isRequestPayloadPresent inst"
    using addRoute_defined [OF assms(1)] by (simp add: z_null_typeName)
  have "extractPayload Number JSON_parse inst cfg r = Inr JNull"
    using np by (simp add: extractPayload_def)
  from requestHandler_valid [OF this assms(1) z_null_accepts, of h]
  have "requestHandler Number JSON_parse inst cfg (Some h) r =
        \<lparr> reply = Sends 200 out, handler_calls = [(new_Context r, JNull)] \<rparr>"
    by (simp add: assms(3))
  with ope rb r codes inst show ?thesis by blast
qed

text \<open>
  C7. For every operation id, the route the query factory creates has the method "get",
  which \<open>addRoute\<close> registers as GET, and the one the mutation factory creates has
  "post", registered as POST; in both the URL is the base URL, a slash and the operation id.
\<close>

theorem null_input_openapi_and_reply_witness:
  "\<exists>ope resp inst.
      getOpenAPIOperation operate_config = Inr ope
    \<and> js_get (operation ope) ''requestBody'' =
        Inr (JObj [(''description'', JStr ''Request object for operate''),
                   (''content'', JObj []), (''required'', JBool False)])
    \<and> js_get (operation ope) ''responses'' = Inr (JObj resp)
    \<and> map_of resp ''204'' = None
    \<and> map_of resp ''200'' \<noteq> None
    \<and> addRoute operate_config = Inr inst
    \<and> requestHandler example_Number example_JSON_parse inst operate_config
          (Some (returns (JStr ''hi''))) example_request =
        \<lparr> reply = Sends 200 (JStr ''hi''),
          handler_calls = [(new_Context example_request, JNull)] \<rparr>"
  using null_input_openapi_and_reply
    [of operate_config z_any "returns (JStr ''hi'')" example_request "JStr ''hi''"
      example_Number example_JSON_parse]
  by (simp add: operate_config_def z_any_def returns_def)

theorem factory_defaults:
  "(\<exists>r cfg inst.
       this_route (snd (query_Router s op_id)) (fst (query_Router s op_id)) = Some (r, cfg)
     \<and> method cfg = ''get''
     \<and> url cfg = baseUrl (config s) @ ''/'' @ op_id
     \<and> addRoute cfg = Inr inst \<and> verb inst = GET
     \<and> mounted_at inst = baseUrl (config s) @ ''/'' @ op_id)
 \<and> (\<exists>r cfg inst.
       this_route (snd (mutation_Router s op_id)) (fst (mutation_Router s op_id)) = Some (r, cfg)
     \<and> method cfg = ''post''
     \<and> url cfg = baseUrl (config s) @ ''/'' @ op_id
     \<and> addRoute cfg = Inr inst \<and> verb inst = POST
     \<and> mounted_at inst = baseUrl (config s) @ ''/'' @ op_id)"
  by (simp add: query_Router_def mutation_Router_def addRoute_Router_def this_route_def Let_def
      addRoute_def isZodTypeNull_def)

lemma operate_created:
  "query_Router example_router ''operate'' =
     (0, example_router\<lparr> config_objs := [operate_config],
                         route_objs := [\<lparr> config_ref = 0, updater = 0, handler = None \<rparr>],
                         routes := [Some 0] \<rparr>)"
  by (simp add: query_Router_def addRoute_Router_def example_router_def new_Router_def
      operate_config_def Let_def)

text \<open>
  C4 as stated fails at the query route as the factory creates it: with no input and no
  output declared, the operation advertises "200", not "204".
\<close>

theorem default_query_advertises_200:
  "fst (query_Router example_router ''operate'') = 0
 \<and> config_objs (snd (query_Router example_router ''operate'')) = [operate_config]
 \<and> getOpenAPIOperation operate_config =
     Inr \<lparr> path = ''/v1/operate'', http_method = ''get'',
           operation =
             JObj [(''operationId'', JStr ''operate''),
                   (''requestBody'',
                      JObj [(''description'', JStr ''Request object for operate''),
                            (''content'', JObj []),
                            (''required'', JBool False)]),
                   (''responses'',
                      JObj [(''200'',
                             JObj [(''description'', JStr ''Success response object for operate''),
                                   (''content'',
                                      JObj [(''application/json'', JObj [(''schema'', JObj [])])])]),
                            (''400'', getErrorResponseSchema),
                            (''500'', getErrorResponseSchema)]),
                   (''x-request-op-type'', JStr ''query'')] \<rparr>"
  by (simp add: operate_created getOpenAPIOperation_def operate_config_def isZodTypeNull_def
      z_null_def z_any_def Let_def js_set_def)


section \<open>Properties of the query-parameter coercion\<close>

lemma truthy_get_type: "truthy v \<Longrightarrow> \<exists>t. js_get v ''type'' = Inr t"
  by (cases v) simp_all

lemma coerce_key_skip:
  "\<not> truthy (own_or_inherited props key) \<Longrightarrow>
   coerce_key N P q (JObj props) key payload = Inr payload"
  by (simp add: coerce_key_def)

lemma coerce_key_take:
  assumes "truthy (own_or_inherited props key)"
    and "js_get (own_or_inherited props key) ''type'' = Inr dt"
  shows "coerce_key N P q (JObj props) key payload =
     (case coerced_by_type N P dt (own_or_inherited q key) of
        Inl e \<Rightarrow> Inl e
      | Inr v \<Rightarrow> Inr (js_set payload key v))"
  using assms
  by (simp add: coerce_key_def coerced_by_type_def Let_def)

lemma map_of_js_set:
  "k \<noteq> ''__proto__'' \<Longrightarrow> map_of (js_set payload key v) k = (if k = key then Some v else map_of payload k)"
  by (simp add: js_set_def update_conv')

text \<open>What the loop has stored under a key other than \<open>__proto__\<close> when it ends normally.\<close>

lemma coerce_keys_result:
  assumes "coerce_keys N P q (JObj props) keys payload = Inr payload'"
    and "k \<noteq> ''__proto__''"
  shows "if k \<in> set keys \<and> truthy (own_or_inherited props k)
         then \<exists>dt v. js_get (own_or_inherited props k) ''type'' = Inr dt
                \<and> coerced_by_type N P dt (own_or_inherited q k) = Inr v
                \<and> map_of payload' k = Some v
         else map_of payload' k = map_of payload k"
  using assms(1)
proof (induction keys arbitrary: payload)
  case Nil
  then show ?case by simp
next
  case (Cons key keys)
  from Cons.prems obtain p1 where p1: "coerce_key N P q (JObj props) key payload = Inr p1"
    and rest: "coerce_keys N P q (JObj props) keys p1 = Inr payload'"
    by (auto split: sum.splits)
  note IH = Cons.IH [OF rest]
  show ?case
  proof (cases "k \<in> set keys \<and> truthy (own_or_inherited props k)")
    case True
    with IH show ?thesis by simp
  next
    case False
    with IH have eq: "map_of payload' k = map_of p1 k" by simp
    show ?thesis
    proof (cases "k = key \<and> truthy (own_or_inherited props k)")
      case True
      then have kk: "k = key" and t: "truthy (own_or_inherited props key)" by auto
      from t obtain dt where dt: "js_get (own_or_inherited props key) ''type'' = Inr dt"
        using truthy_get_type by blast
      from p1 coerce_key_take [OF t dt, of N P q payload]
      obtain v where v: "coerced_by_type N P dt (own_or_inherited q key) = Inr v"
        and p1v: "p1 = js_set payload key v"
        by (auto split: sum.splits)
      from eq p1v assms(2) kk have "map_of payload' k = Some v" by (simp add: map_of_js_set)
      with kk t dt v show ?thesis by simp
    next
      case nk: False
      have "map_of p1 k = map_of payload k"
      proof (cases "truthy (own_or_inherited props key)")
        case True
        then obtain dt where dt: "js_get (own_or_inherited props key) ''type'' = Inr dt"
          using truthy_get_type by blast
        from True p1 coerce_key_take [OF True dt, of N P q payload]
        obtain v where "p1 = js_set payload key v" by (auto split: sum.splits)
        with nk True assms(2) show ?thesis by (auto simp add: map_of_js_set)
      next
        case False
        with p1 show ?thesis by (simp add: coerce_key_skip)
      qed
      with eq False nk show ?thesis by auto
    qed
  qed
qed

text \<open>
  When the loop throws, it is the JSON parse of the raw value of a key that
  \<open>properties[key]\<close> finds, with a type other than the four the switch names.
\<close>

lemma coerce_keys_error:
  assumes "coerce_keys N P q (JObj props) keys payload = Inl e"
  shows "\<exists>k \<in> set keys. \<exists>dt. truthy (own_or_inherited props k)
           \<and> js_get (own_or_inherited props k) ''type'' = Inr dt
           \<and> dt \<noteq> JStr ''string'' \<and> dt \<noteq> JStr ''boolean''
           \<and> dt \<noteq> JStr ''number'' \<and> dt \<noteq> JStr ''integer''
           \<and> P (own_or_inherited q k) = Inl e"
  using assms
proof (induction keys arbitrary: payload)
  case Nil
  then show ?case by simp
next
  case (Cons key keys)
  show ?case
  proof (cases "coerce_key N P q (JObj props) key payload")
    case (Inl e')
    with Cons.prems have e': "e' = e" by simp
    have t: "truthy (own_or_inherited props key)"
      using Inl by - (rule ccontr, simp add: coerce_key_skip)
    then obtain dt where dt: "js_get (own_or_inherited props key) ''type'' = Inr dt"
      using truthy_get_type by blast
    from Inl e' coerce_key_take [OF t dt, of N P q payload]
    have "coerced_by_type N P dt (own_or_inherited q key) = Inl e"
      by (auto split: sum.splits)
    then have "dt \<noteq> JStr ''string'' \<and> dt \<noteq> JStr ''boolean''
           \<and> dt \<noteq> JStr ''number'' \<and> dt \<noteq> JStr ''integer''
           \<and> P (own_or_inherited q key) = Inl e"
      by (auto simp add: coerced_by_type_def split: if_splits)
    with t dt show ?thesis by auto
  next
    case (Inr p1)
    with Cons.prems have "coerce_keys N P q (JObj props) keys p1 = Inl e" by simp
    from Cons.IH [OF this] show ?thesis by auto
  qed
qed


lemma coerce_keys_proto:
  assumes "coerce_keys N P q (JObj props) keys payload = Inr payload'"
  shows "map_of payload' ''__proto__'' = map_of payload ''__proto__''"
  using assms
proof (induction keys arbitrary: payload)
  case Nil
  then show ?case by simp
next
  case (Cons key keys)
  from Cons.prems obtain p1 where p1: "coerce_key N P q (JObj props) key payload = Inr p1"
    and rest: "coerce_keys N P q (JObj props) keys p1 = Inr payload'"
    by (auto split: sum.splits)
  have "map_of p1 ''__proto__'' = map_of payload ''__proto__''"
  proof (cases "truthy (own_or_inherited props key)")
    case True
    then obtain dt where dt: "js_get (own_or_inherited props key) ''type'' = Inr dt"
      using truthy_get_type by blast
    from p1 coerce_key_take [OF True dt, of N P q payload]
    obtain v where "p1 = js_set payload key v" by (auto split: sum.splits)
    then show ?thesis by (simp add: js_set_def update_conv')
  next
    case False
    with p1 show ?thesis by (simp add: coerce_key_skip)
  qed
  with Cons.IH [OF rest] show ?case by simp
qed

lemma own_of_query: "map_of q k = Some raw \<Longrightarrow> own_or_inherited q k = raw"
  by (simp add: own_or_inherited_def)

lemma undeclared_is_undefined:
  "k \<notin> set Object_prototype_names \<Longrightarrow> map_of props k = None \<Longrightarrow>
   own_or_inherited props k = JUndefined"
  by (simp add: own_or_inherited_def inherited_def)

lemma proto_is_inherited: "''__proto__'' \<in> set Object_prototype_names"
  by (simp add: Object_prototype_names_def)

lemma getPayloadFromParams_open:
  "own_or_inherited schema ''type'' = JUndefined
     \<or> truthy (own_or_inherited schema ''additionalProperties'') \<Longrightarrow>
   getPayloadFromParams N P q (JObj schema) = Inr (JObj q)"
  by (auto simp add: getPayloadFromParams_def)

lemma getPayloadFromParams_closed:
  assumes "own_or_inherited schema ''type'' \<noteq> JUndefined"
    and "\<not> truthy (own_or_inherited schema ''additionalProperties'')"
    and "own_or_inherited schema ''properties'' = JObj props"
  shows "getPayloadFromParams N P q (JObj schema) =
     (case coerce_keys N P q (JObj props) (map fst q) [] of
        Inl e \<Rightarrow> Inl e
      | Inr payload \<Rightarrow> Inr (JObj payload))"
  using assms by (simp add: getPayloadFromParams_def)

lemma extractPayload_query:
  assumes "addRoute cfg = Inr inst"
    and "method cfg \<noteq> ''post''" and "method cfg \<noteq> ''put''"
    and "zodSchemas_input cfg = Some zi" and "typeName zi \<noteq> ''ZodNull''"
  shows "extractPayload N P inst cfg r = getPayloadFromParams N P (query r) (jsonSchema_input cfg)"
  using assms by (auto simp add: addRoute_def isZodTypeNull_def extractPayload_def)

text \<open>
  What \<open>getPayloadFromParams\<close> does on the schemas it was written for. For a route whose
  method is neither "post" nor "put" and whose input schema is not the null-sentinel, the
  request handler takes the payload from the query parameters. When the JSON-Schema has no
  \<open>type\<close> or a truthy \<open>additionalProperties\<close>, the raw query map is the payload.
  When it has a \<open>type\<close>, no truthy \<open>additionalProperties\<close> and a \<open>properties\<close>
  object, then either the function throws, and what threw is the JSON parse of the raw
  value of a query key that \<open>properties[key]\<close> finds with a type other than string,
  boolean, number and integer; or the payload is an object in which every query key that
  \<open>properties\<close> declares (other than \<open>__proto__\<close>) holds the raw value coerced by
  the declared type, every key that \<open>properties\<close> does not declare and that is not a
  name inherited from \<open>Object.prototype\<close> is absent, and so is every key the query does
  not have.
\<close>

lemma getPayloadFromParams_object_schema:
  assumes "addRoute cfg = Inr inst"
    and "method cfg \<noteq> ''post''" and "method cfg \<noteq> ''put''"
    and "zodSchemas_input cfg = Some zi" and "typeName zi \<noteq> ''ZodNull''"
    and "jsonSchema_input cfg = JObj schema"
  shows "extractPayload N P inst cfg r = getPayloadFromParams N P (query r) (JObj schema)
   \<and> (own_or_inherited schema ''type'' = JUndefined
        \<or> truthy (own_or_inherited schema ''additionalProperties'') \<longrightarrow>
      getPayloadFromParams N P (query r) (JObj schema) = Inr (JObj (query r)))
   \<and> (own_or_inherited schema ''type'' \<noteq> JUndefined
        \<and> \<not> truthy (own_or_inherited schema ''additionalProperties'')
        \<and> own_or_inherited schema ''properties'' = JObj props \<longrightarrow>
      (case getPayloadFromParams N P (query r) (JObj schema) of
         Inl e \<Rightarrow>
           \<exists>k raw dt. map_of (query r) k = Some raw
             \<and> truthy (own_or_inherited props k)
             \<and> js_get (own_or_inherited props k) ''type'' = Inr dt
             \<and> dt \<noteq> JStr ''string'' \<and> dt \<noteq> JStr ''boolean''
             \<and> dt \<noteq> JStr ''number'' \<and> dt \<noteq> JStr ''integer''
             \<and> P raw = Inl e
       | Inr payload \<Rightarrow>
           \<exists>ps. payload = JObj ps
             \<and> (\<forall>k raw pk. k \<noteq> ''__proto__'' \<and> map_of (query r) k = Some raw
                    \<and> map_of props k = Some pk \<and> truthy pk \<longrightarrow>
                  (\<exists>dt v. js_get pk ''type'' = Inr dt
                     \<and> coerced_by_type N P dt raw = Inr v \<and> map_of ps k = Some v))
             \<and> (\<forall>k. k \<notin> set Object_prototype_names \<and> map_of props k = None \<longrightarrow>
                  map_of ps k = None)
             \<and> (\<forall>k. map_of (query r) k = None \<longrightarrow> map_of ps k = None)))"
proof (intro conjI impI)
  show "extractPayload N P inst cfg r = getPayloadFromParams N P (query r) (JObj schema)"
    using extractPayload_query [OF assms(1-5)] assms(6) by simp
next
  assume "own_or_inherited schema ''type'' = JUndefined
        \<or> truthy (own_or_inherited schema ''additionalProperties'')"
  then show "getPayloadFromParams N P (query r) (JObj schema) = Inr (JObj (query r))"
    by (rule getPayloadFromParams_open)
next
  assume closed: "own_or_inherited schema ''type'' \<noteq> JUndefined
        \<and> \<not> truthy (own_or_inherited schema ''additionalProperties'')
        \<and> own_or_inherited schema ''properties'' = JObj props"
  let ?q = "query r"
  have eq: "getPayloadFromParams N P ?q (JObj schema) =
     (case coerce_keys N P ?q (JObj props) (map fst ?q) [] of
        Inl e \<Rightarrow> Inl e
      | Inr payload \<Rightarrow> Inr (JObj payload))"
    using closed by (intro getPayloadFromParams_closed) simp_all
  have keys: "\<And>k. k \<in> set (map fst ?q) \<longleftrightarrow> map_of ?q k \<noteq> None"
    by (simp add: map_of_eq_None_iff)
  show "case getPayloadFromParams N P ?q (JObj schema) of
         Inl e \<Rightarrow>
           \<exists>k raw dt. map_of ?q k = Some raw
             \<and> truthy (own_or_inherited props k)
             \<and> js_get (own_or_inherited props k) ''type'' = Inr dt
             \<and> dt \<noteq> JStr ''string'' \<and> dt \<noteq> JStr ''boolean''
             \<and> dt \<noteq> JStr ''number'' \<and> dt \<noteq> JStr ''integer''
             \<and> P raw = Inl e
       | Inr payload \<Rightarrow>
           \<exists>ps. payload = JObj ps
             \<and> (\<forall>k raw pk. k \<noteq> ''__proto__'' \<and> map_of ?q k = Some raw
                    \<and> map_of props k = Some pk \<and> truthy pk \<longrightarrow>
                  (\<exists>dt v. js_get pk ''type'' = Inr dt
                     \<and> coerced_by_type N P dt raw = Inr v \<and> map_of ps k = Some v))
             \<and> (\<forall>k. k \<notin> set Object_prototype_names \<and> map_of props k = None \<longrightarrow>
                  map_of ps k = None)
             \<and> (\<forall>k. map_of ?q k = None \<longrightarrow> map_of ps k = None)"
  proof (cases "coerce_keys N P ?q (JObj props) (map fst ?q) []")
    case (Inl e)
    from coerce_keys_error [OF Inl] obtain k dt where k: "k \<in> set (map fst ?q)"
      and t: "truthy (own_or_inherited props k)"
      and dt: "js_get (own_or_inherited props k) ''type'' = Inr dt"
      and other: "dt \<noteq> JStr ''string''" "dt \<noteq> JStr ''boolean''"
        "dt \<noteq> JStr ''number''" "dt \<noteq> JStr ''integer''"
      and pe: "P (own_or_inherited ?q k) = Inl e" by blast
    from k keys obtain raw where raw: "map_of ?q k = Some raw" by auto
    with pe have "P raw = Inl e" by (simp add: own_of_query)
    with raw t dt other have "\<exists>k raw dt. map_of ?q k = Some raw
             \<and> truthy (own_or_inherited props k)
             \<and> js_get (own_or_inherited props k) ''type'' = Inr dt
             \<and> dt \<noteq> JStr ''string'' \<and> dt \<noteq> JStr ''boolean''
             \<and> dt \<noteq> JStr ''number'' \<and> dt \<noteq> JStr ''integer''
             \<and> P raw = Inl e" by blast
    with Inl eq show ?thesis by simp
  next
    case (Inr ps)
    have declared: "\<exists>dt v. js_get pk ''type'' = Inr dt
                     \<and> coerced_by_type N P dt raw = Inr v \<and> map_of ps k = Some v"
      if "k \<noteq> ''__proto__''" "map_of ?q k = Some raw" "map_of props k = Some pk" "truthy pk"
      for k raw pk
    proof -
      from that have own: "own_or_inherited props k = pk" "own_or_inherited ?q k = raw"
        by (simp_all add: own_or_inherited_def)
      from that keys have "k \<in> set (map fst ?q)" by auto
      with coerce_keys_result [OF Inr that(1)] own that(4) show ?thesis by simp
    qed
    have dropped: "map_of ps k = None"
      if "k \<notin> set Object_prototype_names" "map_of props k = None" for k
    proof -
      from that have u: "own_or_inherited props k = JUndefined"
        by (rule undeclared_is_undefined)
      from that(1) proto_is_inherited have "k \<noteq> ''__proto__''" by auto
      from coerce_keys_result [OF Inr this] u show ?thesis by simp
    qed
    have absent: "map_of ps k = None" if "map_of ?q k = None" for k
    proof (cases "k = ''__proto__''")
      case True
      with coerce_keys_proto [OF Inr] show ?thesis by simp
    next
      case False
      from that keys have "k \<notin> set (map fst ?q)" by auto
      with coerce_keys_result [OF Inr False] show ?thesis by simp
    qed
    from declared dropped absent Inr eq show ?thesis by auto
  qed
qed


lemma search_addRoute: "addRoute search_config = Inr search_installed"
  by (simp add: addRoute_def search_config_def operate_config_def search_installed_def
      isZodTypeNull_def z_example_def)

lemma search_schema:
  "jsonSchema_input search_config =
     JObj [(''type'', JStr ''object''),
           (''properties'',
              JObj [(''name'', JObj [(''type'', JStr ''string'')]),
                    (''count'', JObj [(''type'', JStr ''number'')]),
                    (''flag'', JObj [(''type'', JStr ''boolean'')]),
                    (''limit'', JObj [(''type'', JArr [JStr ''number'', JStr ''null''])])]),
           (''additionalProperties'', JBool False)]"
  by (simp add: search_config_def z_example_def)

lemma example_payload:
  "getPayloadFromParams example_Number example_JSON_parse (query example_request)
     (jsonSchema_input search_config) =
   Inr (JObj [(''name'', JStr ''Ada''), (''count'', JNum (Fin 42)), (''flag'', JBool False),
              (''limit'', JNull)])"
  by (simp add: search_schema getPayloadFromParams_def example_request_def coerce_key_def
      own_or_inherited_def inherited_def Object_prototype_names_def js_set_def
      example_Number_def example_JSON_parse_def digit_def Let_def)

text \<open>
  The lemma at a request to \<open>router.query("operate").input(z_example)\<close> with the query
  \<open>name=Ada&count=42&flag=yes&limit=null&extra=1\<close>; the payload it yields passes the
  validation of \<open>z_example\<close>.
\<close>

lemma example_payload_accepted:
  "safeParse z_example
     (JObj [(''name'', JStr ''Ada''), (''count'', JNum (Fin 42)), (''flag'', JBool False),
            (''limit'', JNull)]) = SafeParseSuccess"
  by (simp add: safeParse_def z_example_def field_issues_def)

lemma getPayloadFromParams_object_schema_example:
  "extractPayload example_Number example_JSON_parse search_installed search_config
     example_request =
   Inr (JObj [(''name'', JStr ''Ada''), (''count'', JNum (Fin 42)), (''flag'', JBool False),
              (''limit'', JNull)])
 \<and> (\<exists>v. coerced_by_type example_Number example_JSON_parse (JStr ''number'') (JStr ''42'') = Inr v
        \<and> map_of [(''name'', JStr ''Ada''), (''count'', JNum (Fin 42)), (''flag'', JBool False),
                   (''limit'', JNull)] ''count'' = Some v)
 \<and> map_of [(''name'', JStr ''Ada''), (''count'', JNum (Fin 42)), (''flag'', JBool False),
            (''limit'', JNull)] ''extra'' = None"
proof -
  let ?schema = "[(''type'', JStr ''object''),
           (''properties'',
              JObj [(''name'', JObj [(''type'', JStr ''string'')]),
                    (''count'', JObj [(''type'', JStr ''number'')]),
                    (''flag'', JObj [(''type'', JStr ''boolean'')]),
                    (''limit'', JObj [(''type'', JArr [JStr ''number'', JStr ''null''])])]),
           (''additionalProperties'', JBool False)]"
  let ?props = "[(''name'', JObj [(''type'', JStr ''string'')]),
                    (''count'', JObj [(''type'', JStr ''number'')]),
                    (''flag'', JObj [(''type'', JStr ''boolean'')]),
                    (''limit'', JObj [(''type'', JArr [JStr ''number'', JStr ''null''])])]"
  let ?ps = "[(''name'', JStr ''Ada''), (''count'', JNum (Fin 42)), (''flag'', JBool False),
              (''limit'', JNull)]"
  have m: "method search_config \<noteq> ''post''" "method search_config \<noteq> ''put''"
    by (simp_all add: search_config_def operate_config_def)
  have z: "zodSchemas_input search_config = Some z_example"
    by (simp add: search_config_def)
  have t: "typeName z_example \<noteq> ''ZodNull''"
    by (simp add: z_example_def)
  note th = getPayloadFromParams_object_schema [OF search_addRoute m z t search_schema,
        of example_Number example_JSON_parse example_request ?props]
  have pl: "getPayloadFromParams example_Number example_JSON_parse (query example_request)
              (JObj ?schema) = Inr (JObj ?ps)"
    using example_payload by (simp only: search_schema)
  have closed: "own_or_inherited ?schema ''type'' \<noteq> JUndefined
        \<and> \<not> truthy (own_or_inherited ?schema ''additionalProperties'')
        \<and> own_or_inherited ?schema ''properties'' = JObj ?props"
    by (simp add: own_or_inherited_def)
  from th have ex: "extractPayload example_Number example_JSON_parse search_installed
      search_config example_request = Inr (JObj ?ps)"
    by (simp only: pl)
  from th [THEN conjunct2, THEN conjunct2, THEN mp, OF closed]
  obtain ps where ps: "JObj ?ps = JObj ps"
    and declared': "\<forall>k raw pk. k \<noteq> ''__proto__'' \<and> map_of (query example_request) k = Some raw
                    \<and> map_of ?props k = Some pk \<and> truthy pk \<longrightarrow>
                  (\<exists>dt v. js_get pk ''type'' = Inr dt
                     \<and> coerced_by_type example_Number example_JSON_parse dt raw = Inr v
                     \<and> map_of ps k = Some v)"
    and dropped': "\<forall>k. k \<notin> set Object_prototype_names \<and> map_of ?props k = None \<longrightarrow>
                  map_of ps k = None"
    unfolding pl sum.case by blast
  from ps have pse: "ps = ?ps" by (simp only: jsval.inject)
  note declared = declared' [unfolded pse] and dropped = dropped' [unfolded pse]
  from declared [rule_format, of "''count''" "JStr ''42''" "JObj [(''type'', JStr ''number'')]"]
  have c: "\<exists>v. coerced_by_type example_Number example_JSON_parse (JStr ''number'') (JStr ''42'') = Inr v
        \<and> map_of ?ps ''count'' = Some v"
    by (simp add: example_request_def own_or_inherited_def)
  from dropped [rule_format, of "''extra''"]
  have d: "map_of ?ps ''extra'' = None"
    by (simp add: Object_prototype_names_def)
  from ex c d show ?thesis by (intro conjI)
qed

subsection \<open>A schema without properties\<close>

text \<open>
  C1 does not hold of the code. Take the route \<open>router.query("operate").input(z.string())\<close>:
  its method is "get", its input schema is not the null-sentinel, and its JSON-Schema
  \<open>{type: "string"}\<close> has a \<open>type\<close> and declares no property. C1 has every query key
  dropped, since none is declared, so the payload would be \<open>{}\<close>, which is what
  \<open>getPayloadFromParams\<close> returns for the empty query. For the query
  \<open>name=Ada&count=42&flag=yes&limit=null&extra=1\<close> the function reads
  \<open>properties[key]\<close> where \<open>properties\<close> is \<open>undefined\<close> and throws a TypeError: no
  payload is built, the input is never validated, and the request handler's promise
  rejects without a response.
\<close>

theorem query_payload_without_properties:
  "chain [Input z_string] (query_Router example_router ''operate'') =
     Some (1, example_router\<lparr> config_objs := [text_config],
                              route_objs := [\<lparr> config_ref = 0, updater = 0, handler = None \<rparr>,
                                             \<lparr> config_ref = 0, updater = 0, handler = None \<rparr>],
                              routes := [Some 1] \<rparr>)
 \<and> addRoute text_config = Inr search_installed
 \<and> getPayloadFromParams example_Number example_JSON_parse [] (jsonSchema_input text_config) =
     Inr (JObj [])
 \<and> getPayloadFromParams example_Number example_JSON_parse (query example_request)
       (jsonSchema_input text_config) = Inl TypeError
 \<and> requestHandler example_Number example_JSON_parse search_installed text_config
       (Some (returns JNull)) example_request =
     \<lparr> reply = Rejects TypeError, handler_calls = [] \<rparr>"
  by (simp add: query_Router_def addRoute_Router_def example_router_def new_Router_def
      input_Route_def this_route_def js_array_set_def text_config_def operate_config_def
      z_string_def Let_def addRoute_def isZodTypeNull_def search_installed_def
      getPayloadFromParams_def example_request_def coerce_key_def own_or_inherited_def
      inherited_def Object_prototype_names_def requestHandler_def extractPayload_def)


text \<open>
  The same unguarded read keeps a key that no schema declares when its name is one every
  object inherits from \<open>Object.prototype\<close>: \<open>properties[key]\<close> finds the inherited
  member, which is truthy and has no \<open>type\<close>, so the raw value is parsed as JSON and
  stored.
\<close>

lemma inherited_name_is_kept:
  "getPayloadFromParams example_Number example_JSON_parse [(''constructor'', JStr ''1'')]
     (jsonSchema_input search_config) =
   Inr (JObj [(''constructor'', JNum (Fin 1))])"
  by (simp add: search_schema getPayloadFromParams_def coerce_key_def
      own_or_inherited_def inherited_def Object_prototype_names_def js_set_def
      example_JSON_parse_def digit_def Let_def)

section \<open>Properties of the registry\<close>

lemma registry_ok_new: "registry_ok (new_Router c)"
  by (simp add: registry_ok_def new_Router_def)

lemma registry_ok_addRoute:
  assumes "registry_ok s"
    and "zodSchemas_input cfg \<noteq> None" and "zodSchemas_output cfg \<noteq> None"
  shows "registry_ok (snd (addRoute_Router s cfg))"
  using assms
  unfolding registry_ok_def latest_in_slot_def addRoute_Router_def Let_def
  apply (simp add: nth_append)
  apply (intro conjI allI impI)
    apply (auto simp add: less_Suc_eq nth_append)
  done


lemma this_route_SomeD:
  assumes "this_route s this = Some (r, cfg)"
  shows "this < length (route_objs s)" and "r = route_objs s ! this"
    and "config_ref r < length (config_objs s)" and "cfg = config_objs s ! config_ref r"
  using assms by (auto simp add: this_route_def split: if_splits)

text \<open>The state change common to \<open>input\<close> and \<open>output\<close>.\<close>

lemma registry_ok_refine:
  assumes ok: "registry_ok s"
    and u: "u < length (routes s)" and c: "c < length (config_objs s)"
    and z: "zodSchemas_input cfg' \<noteq> None" "zodSchemas_output cfg' \<noteq> None"
  shows "registry_ok
          (s\<lparr> config_objs := (config_objs s)[k := cfg'],
              route_objs := route_objs s @ [\<lparr> config_ref = c, updater = u, handler = None \<rparr>],
              routes := js_array_set (routes s) u (length (route_objs s)) \<rparr>)"
proof -
  have set: "js_array_set (routes s) u (length (route_objs s)) =
             (routes s)[u := Some (length (route_objs s))]"
    using u by (simp add: js_array_set_def)
  from ok have objs: "\<And>a. a < length (route_objs s) \<Longrightarrow>
         updater (route_objs s ! a) < length (routes s)
       \<and> config_ref (route_objs s ! a) < length (config_objs s)"
    and slots: "\<And>i. i < length (routes s) \<Longrightarrow> \<exists>a. routes s ! i = Some a \<and> latest_in_slot s i a"
    and cfgs: "\<And>c. c < length (config_objs s) \<Longrightarrow>
         zodSchemas_input (config_objs s ! c) \<noteq> None
       \<and> zodSchemas_output (config_objs s ! c) \<noteq> None"
    by (simp_all add: registry_ok_def)
  define s' where "s' = s\<lparr> config_objs := (config_objs s)[k := cfg'],
              route_objs := route_objs s @ [\<lparr> config_ref = c, updater = u, handler = None \<rparr>],
              routes := js_array_set (routes s) u (length (route_objs s)) \<rparr>"
  have f: "route_objs s' = route_objs s @ [\<lparr> config_ref = c, updater = u, handler = None \<rparr>]"
    "routes s' = (routes s)[u := Some (length (route_objs s))]"
    "config_objs s' = (config_objs s)[k := cfg']"
    by (simp_all add: s'_def set)
  have "registry_ok s'"
    unfolding registry_ok_def
  proof (intro conjI allI impI)
    fix a
    assume "a < length (route_objs s')"
    then have a: "a < length (route_objs s) \<or> a = length (route_objs s)" by (auto simp add: f)
    from a show "updater (route_objs s' ! a) < length (routes s')"
      using objs u c by (auto simp add: f nth_append)
    from a show "config_ref (route_objs s' ! a) < length (config_objs s')"
      using objs u c by (auto simp add: f nth_append)
  next
    fix i
    assume "i < length (routes s')"
    then have i: "i < length (routes s)" by (simp add: f)
    show "\<exists>a. routes s' ! i = Some a \<and> latest_in_slot s' i a"
    proof (cases "i = u")
      case True
      then show ?thesis
        using u by (auto simp add: latest_in_slot_def f nth_append)
    next
      case False
      from slots [OF i] obtain a where a: "routes s ! i = Some a" "latest_in_slot s i a"
        by blast
      with False i show ?thesis
        by (auto simp add: latest_in_slot_def f nth_append less_Suc_eq)
    qed
  next
    fix j
    assume "j < length (config_objs s')"
    then have j: "j < length (config_objs s)" by (simp add: f)
    from cfgs [OF j] z j
    show "zodSchemas_input (config_objs s' ! j) \<noteq> None"
      by (cases "j = k") (simp_all add: f)
    from cfgs [OF j] z j
    show "zodSchemas_output (config_objs s' ! j) \<noteq> None"
      by (cases "j = k") (simp_all add: f)
  qed
  then show ?thesis by (simp only: s'_def)
qed


lemma input_Route_effect:
  assumes ok: "registry_ok s" and st: "input_Route s this schema = Some (new, s')"
  shows "registry_ok s'" and "new = length (route_objs s)"
    and "updater (route_objs s ! this) < length (routes s)"
    and "routes s' = (routes s)[updater (route_objs s ! this) := Some new]"
    and "route_objs s' = route_objs s @
           [\<lparr> config_ref = config_ref (route_objs s ! this),
              updater = updater (route_objs s ! this), handler = None \<rparr>]"
proof -
  from st obtain r cfg where tr: "this_route s this = Some (r, cfg)"
    by (auto simp add: input_Route_def split: option.splits)
  note d = this_route_SomeD [OF tr]
  from ok d(1,2) have u: "updater r < length (routes s)"
    by (simp add: registry_ok_def)
  from st tr have s': "s' = s\<lparr> config_objs := (config_objs s)[config_ref r :=
                 cfg\<lparr> zodSchemas_input := Some schema,
                      jsonSchema_input := JObj (AList.delete ''$schema'' (zodToJsonSchema schema)) \<rparr>],
              route_objs := route_objs s @
                 [\<lparr> config_ref = config_ref r, updater = updater r, handler = None \<rparr>],
              routes := js_array_set (routes s) (updater r) (length (route_objs s)) \<rparr>"
    and new: "new = length (route_objs s)"
    by (auto simp add: input_Route_def Let_def)
  from ok d(3,4) have z: "zodSchemas_output cfg \<noteq> None"
    by (simp add: registry_ok_def)
  show "registry_ok s'"
    unfolding s' by (rule registry_ok_refine [OF ok u d(3)]) (simp_all add: z)
  show "new = length (route_objs s)" by (rule new)
  show "updater (route_objs s ! this) < length (routes s)" using u d(2) by simp
  show "routes s' = (routes s)[updater (route_objs s ! this) := Some new]"
    using u d(2) by (simp add: s' new js_array_set_def)
  show "route_objs s' = route_objs s @
           [\<lparr> config_ref = config_ref (route_objs s ! this),
              updater = updater (route_objs s ! this), handler = None \<rparr>]"
    using d(2) by (simp add: s')
qed

lemma output_Route_effect:
  assumes ok: "registry_ok s" and st: "output_Route s this schema = Some (new, s')"
  shows "registry_ok s'" and "new = length (route_objs s)"
    and "updater (route_objs s ! this) < length (routes s)"
    and "routes s' = (routes s)[updater (route_objs s ! this) := Some new]"
    and "route_objs s' = route_objs s @
           [\<lparr> config_ref = config_ref (route_objs s ! this),
              updater = updater (route_objs s ! this), handler = None \<rparr>]"
proof -
  from st obtain r cfg where tr: "this_route s this = Some (r, cfg)"
    by (auto simp add: output_Route_def split: option.splits)
  note d = this_route_SomeD [OF tr]
  from ok d(1,2) have u: "updater r < length (routes s)"
    by (simp add: registry_ok_def)
  from st tr have s': "s' = s\<lparr> config_objs := (config_objs s)[config_ref r :=
                 cfg\<lparr> zodSchemas_output := Some schema,
                      jsonSchema_output := JObj (AList.delete ''$schema'' (zodToJsonSchema schema)) \<rparr>],
              route_objs := route_objs s @
                 [\<lparr> config_ref = config_ref r, updater = updater r, handler = None \<rparr>],
              routes := js_array_set (routes s) (updater r) (length (route_objs s)) \<rparr>"
    and new: "new = length (route_objs s)"
    by (auto simp add: output_Route_def Let_def)
  from ok d(3,4) have z: "zodSchemas_input cfg \<noteq> None"
    by (simp add: registry_ok_def)
  show "registry_ok s'"
    unfolding s' by (rule registry_ok_refine [OF ok u d(3)]) (simp_all add: z)
  show "new = length (route_objs s)" by (rule new)
  show "updater (route_objs s ! this) < length (routes s)" using u d(2) by simp
  show "routes s' = (routes s)[updater (route_objs s ! this) := Some new]"
    using u d(2) by (simp add: s' new js_array_set_def)
  show "route_objs s' = route_objs s @
           [\<lparr> config_ref = config_ref (route_objs s ! this),
              updater = updater (route_objs s ! this), handler = None \<rparr>]"
    using d(2) by (simp add: s')
qed

lemma fn_Route_effect:
  assumes ok: "registry_ok s" and st: "fn_Route s this f = Some (h, s')"
  shows "registry_ok s'" and "h = this" and "this < length (route_objs s)"
    and "routes s' = routes s"
    and "route_objs s' = (route_objs s)[this := (route_objs s ! this)\<lparr> handler := Some f \<rparr>]"
proof -
  from st obtain r cfg where tr: "this_route s this = Some (r, cfg)"
    by (auto simp add: fn_Route_def split: option.splits)
  note d = this_route_SomeD [OF tr]
  from st tr d(2) have s': "s' = s\<lparr> route_objs :=
        (route_objs s)[this := (route_objs s ! this)\<lparr> handler := Some f \<rparr>] \<rparr>"
    and h: "h = this"
    by (auto simp add: fn_Route_def)
  have upd: "updater ((route_objs s)[this := (route_objs s ! this)\<lparr> handler := Some f \<rparr>] ! a) =
             updater (route_objs s ! a)"
    "config_ref ((route_objs s)[this := (route_objs s ! this)\<lparr> handler := Some f \<rparr>] ! a) =
             config_ref (route_objs s ! a)"
    for a
    using d(1) by (cases "a = this"; simp)+
  show "registry_ok s'"
    using ok unfolding s' registry_ok_def latest_in_slot_def
    by (simp add: upd)
  show "h = this" by (rule h)
  show "this < length (route_objs s)" by (rule d(1))
  show "routes s' = routes s" by (simp add: s')
  show "route_objs s' = (route_objs s)[this := (route_objs s ! this)\<lparr> handler := Some f \<rparr>]"
    by (simp add: s')
qed

lemma setter_effect:
  assumes ok: "registry_ok s"
    and st: "method_Route s this m = Some (h, s') \<or> url_Route s this m = Some (h, s')"
  shows "registry_ok s'" and "h = this" and "this < length (route_objs s)"
    and "routes s' = routes s" and "route_objs s' = route_objs s"
proof -
  from st obtain r cfg where tr: "this_route s this = Some (r, cfg)"
    by (auto simp add: method_Route_def url_Route_def split: option.splits)
  note d = this_route_SomeD [OF tr]
  from st tr obtain cfg' where s': "s' = s\<lparr> config_objs := (config_objs s)[config_ref r := cfg'] \<rparr>"
    and z: "zodSchemas_input cfg' = zodSchemas_input cfg"
           "zodSchemas_output cfg' = zodSchemas_output cfg"
    and h: "h = this"
    by (auto simp add: method_Route_def url_Route_def)
  have zz: "zodSchemas_input ((config_objs s)[config_ref r := cfg'] ! c) =
            zodSchemas_input (config_objs s ! c)"
    "zodSchemas_output ((config_objs s)[config_ref r := cfg'] ! c) =
            zodSchemas_output (config_objs s ! c)"
    for c
    using z d(3,4) by (cases "c = config_ref r"; simp)+
  show "registry_ok s'"
    using ok unfolding s' registry_ok_def latest_in_slot_def
    by (simp add: zz)
  show "h = this" by (rule h)
  show "this < length (route_objs s)" by (rule d(1))
  show "routes s' = routes s" "route_objs s' = route_objs s" by (simp_all add: s')
qed


lemma factory_effect:
  assumes ok: "registry_ok s"
    and st: "query_Router s op_id = (h, s') \<or> mutation_Router s op_id = (h, s')"
  shows "registry_ok s'" and "h = length (route_objs s)"
    and "routes s' = routes s @ [Some h]"
    and "route_objs s' = route_objs s @
           [\<lparr> config_ref = length (config_objs s), updater = length (routes s), handler = None \<rparr>]"
proof -
  from st obtain cfg where a: "addRoute_Router s cfg = (h, s')"
    and z: "zodSchemas_input cfg \<noteq> None" "zodSchemas_output cfg \<noteq> None"
    by (auto simp add: query_Router_def mutation_Router_def)
  from registry_ok_addRoute [OF ok z] a show "registry_ok s'" by simp
  from a show "h = length (route_objs s)" "routes s' = routes s @ [Some h]"
    "route_objs s' = route_objs s @
           [\<lparr> config_ref = length (config_objs s), updater = length (routes s), handler = None \<rparr>]"
    by (auto simp add: addRoute_Router_def Let_def)
qed

lemma call_ok:
  assumes ok: "registry_ok s" and st: "call c s this = Some (h, s')"
  shows "registry_ok s' \<and> length (routes s') = length (routes s)"
proof (cases c)
  case (Input schema)
  with st have "input_Route s this schema = Some (h, s')" by simp
  from input_Route_effect(1,4) [OF ok this] show ?thesis by simp
next
  case (Output schema)
  with st have "output_Route s this schema = Some (h, s')" by simp
  from output_Route_effect(1,4) [OF ok this] show ?thesis by simp
next
  case (Fn f)
  with st have "fn_Route s this f = Some (h, s')" by simp
  from fn_Route_effect(1,4) [OF ok this] show ?thesis by simp
next
  case (Method m)
  with st have "method_Route s this m = Some (h, s') \<or> url_Route s this m = Some (h, s')"
    by simp
  from setter_effect(1,4) [OF ok this] show ?thesis by simp
next
  case (Url u)
  with st have "method_Route s this u = Some (h, s') \<or> url_Route s this u = Some (h, s')"
    by simp
  from setter_effect(1,4) [OF ok this] show ?thesis by simp
qed

lemma step_ok:
  assumes ok: "registry_ok s" and st: "step c s = Some (h, s')"
  shows "registry_ok s'
    \<and> length (routes s') = length (routes s) + (if is_factory c then 1 else 0)"
proof (cases c)
  case (Query_cmd op_id)
  with st have "query_Router s op_id = (h, s') \<or> mutation_Router s op_id = (h, s')" by simp
  from factory_effect(1,3) [OF ok this] Query_cmd show ?thesis by simp
next
  case (Mutation_cmd op_id)
  with st have "query_Router s op_id = (h, s') \<or> mutation_Router s op_id = (h, s')" by simp
  from factory_effect(1,3) [OF ok this] Mutation_cmd show ?thesis by simp
next
  case (Call_cmd this c')
  with st have "call c' s this = Some (h, s')" by simp
  from call_ok [OF ok this] Call_cmd show ?thesis by simp
qed

lemma run_ok:
  assumes "registry_ok s" and "run cmds s = Some s'"
  shows "registry_ok s' \<and> length (routes s') = length (routes s) + length (filter is_factory cmds)"
  using assms
proof (induction cmds arbitrary: s)
  case Nil
  then show ?case by simp
next
  case (Cons c cmds)
  from Cons.prems(2) obtain h s1 where st: "step c s = Some (h, s1)"
    and rest: "run cmds s1 = Some s'"
    by (auto split: option.splits)
  from step_ok [OF Cons.prems(1) st] Cons.IH [OF _ rest] show ?case by simp
qed

text \<open>
  C6. After any start-up program over a new Router, the route list has exactly one entry
  per \<open>query\<close> or \<open>mutation\<close> call and every slot holds the most recently refined
  route value made for it; and a further \<open>input\<close> or \<open>output\<close> call on any route
  handle overwrites the slot index that handle's updater captured with the new route
  value, leaving the length of the list as it is.
\<close>

theorem registry_slots:
  assumes "run cmds (new_Router c) = Some s"
  shows "length (routes s) = length (filter is_factory cmds)
   \<and> (\<forall>i < length (routes s). \<exists>a. routes s ! i = Some a \<and> latest_in_slot s i a)
   \<and> (\<forall>this schema new s'.
         input_Route s this schema = Some (new, s') \<or> output_Route s this schema = Some (new, s') \<longrightarrow>
           updater (route_objs s ! this) < length (routes s)
         \<and> routes s' = (routes s)[updater (route_objs s ! this) := Some new]
         \<and> latest_in_slot s' (updater (route_objs s ! this)) new)"
proof -
  from run_ok [OF registry_ok_new assms]
  have ok: "registry_ok s" and len: "length (routes s) = length (filter is_factory cmds)"
    by (simp_all add: new_Router_def)
  have refine: "updater (route_objs s ! this) < length (routes s)
         \<and> routes s' = (routes s)[updater (route_objs s ! this) := Some new]
         \<and> latest_in_slot s' (updater (route_objs s ! this)) new"
    if "input_Route s this schema = Some (new, s') \<or> output_Route s this schema = Some (new, s')"
    for this schema new s'
  proof -
    from that input_Route_effect [OF ok, of this schema new s']
      output_Route_effect [OF ok, of this schema new s']
    have ok': "registry_ok s'"
      and u: "updater (route_objs s ! this) < length (routes s)"
      and r: "routes s' = (routes s)[updater (route_objs s ! this) := Some new]"
      by auto
    from ok' have "\<forall>i < length (routes s'). \<exists>a. routes s' ! i = Some a \<and> latest_in_slot s' i a"
      by (simp add: registry_ok_def)
    with u r have "latest_in_slot s' (updater (route_objs s ! this)) new"
      by auto
    with u r show ?thesis by simp
  qed
  from ok have "\<forall>i < length (routes s). \<exists>a. routes s ! i = Some a \<and> latest_in_slot s i a"
    by (simp add: registry_ok_def)
  with len refine show ?thesis by (intro conjI allI impI) auto
qed


theorem registry_slots_witness:
  "\<exists>s. run [Query_cmd ''operate'', Call_cmd 0 (Input z_string), Mutation_cmd ''addTodo'',
            Call_cmd 0 (Output z_any)] example_router = Some s
      \<and> routes s = [Some 3, Some 2]
      \<and> latest_in_slot s 0 3 \<and> latest_in_slot s 1 2"
proof -
  obtain s where r: "run [Query_cmd ''operate'', Call_cmd 0 (Input z_string),
            Mutation_cmd ''addTodo'', Call_cmd 0 (Output z_any)]
            (new_Router \<lparr> name = ''myServer'', baseUrl = ''/v1'' \<rparr>) = Some s"
    and rs: "routes s = [Some 3, Some 2]"
    by (simp add: query_Router_def mutation_Router_def addRoute_Router_def input_Route_def
        output_Route_def this_route_def js_array_set_def Let_def new_Router_def)
  from registry_slots [OF r]
  have "\<forall>i < length (routes s). \<exists>a. routes s ! i = Some a \<and> latest_in_slot s i a"
    by (rule conjunct2 [THEN conjunct1])
  from this [rule_format, of 0] this [rule_format, of 1] rs
  have "latest_in_slot s 0 3" "latest_in_slot s 1 2" by simp_all
  with r rs show ?thesis unfolding example_router_def by (intro exI [of _ s] conjI)
qed


lemma attached_Some_iff:
  "attached calls h0 = Some f \<longleftrightarrow>
     (\<exists>pre post. calls = pre @ Fn f # post \<and> list_all is_setter post)
   \<or> (h0 = Some f \<and> list_all is_setter calls)"
proof (induction calls arbitrary: h0)
  case Nil
  then show ?case by simp
next
  case (Cons c calls)
  show ?case
  proof (cases c)
    case (Fn g)
    show ?thesis
      unfolding Fn attached.simps Cons.IH
      by (auto simp add: Cons_eq_append_conv)
  qed (auto simp add: Cons.IH Cons_eq_append_conv)
qed

text \<open>What a chain does to the Route object it ends on and to that object's slot.\<close>

lemma chain_effect:
  assumes "registry_ok s" and "this < length (route_objs s)"
    and "routes s ! updater (route_objs s ! this) = Some this"
    and "chain calls (this, s) = Some (this', s')"
  shows "registry_ok s' \<and> this' < length (route_objs s')
       \<and> updater (route_objs s' ! this') = updater (route_objs s ! this)
       \<and> routes s' ! updater (route_objs s ! this) = Some this'
       \<and> handler (route_objs s' ! this') = attached calls (handler (route_objs s ! this))"
  using assms
proof (induction calls arbitrary: this s)
  case Nil
  then show ?case by simp
next
  case (Cons c calls)
  from Cons.prems(4) obtain h1 s1 where st: "call c s this = Some (h1, s1)"
    and rest: "chain calls (h1, s1) = Some (this', s')"
    by (auto split: option.splits)
  note ok = Cons.prems(1)
  let ?u = "updater (route_objs s ! this)"
  have step: "registry_ok s1 \<and> h1 < length (route_objs s1)
       \<and> updater (route_objs s1 ! h1) = ?u
       \<and> routes s1 ! ?u = Some h1
       \<and> attached (c # calls) (handler (route_objs s ! this)) =
          attached calls (handler (route_objs s1 ! h1))"
  proof (cases c)
    case (Input schema)
    with st have "input_Route s this schema = Some (h1, s1)" by simp
    from input_Route_effect [OF ok this] Input show ?thesis by (simp add: nth_append)
  next
    case (Output schema)
    with st have "output_Route s this schema = Some (h1, s1)" by simp
    from output_Route_effect [OF ok this] Output show ?thesis by (simp add: nth_append)
  next
    case (Fn f)
    with st have "fn_Route s this f = Some (h1, s1)" by simp
    from fn_Route_effect [OF ok this] Fn Cons.prems(3) show ?thesis by simp
  next
    case (Method m)
    with st have "method_Route s this m = Some (h1, s1) \<or> url_Route s this m = Some (h1, s1)"
      by simp
    from setter_effect [OF ok this] Method Cons.prems(3) show ?thesis by simp
  next
    case (Url u)
    with st have "method_Route s this u = Some (h1, s1) \<or> url_Route s this u = Some (h1, s1)"
      by simp
    from setter_effect [OF ok this] Url Cons.prems(3) show ?thesis by simp
  qed
  then have "routes s1 ! updater (route_objs s1 ! h1) = Some h1" by simp
  from Cons.IH [OF _ _ this rest] step show ?case by simp
qed

lemma dispatch_no_handler:
  assumes ok: "registry_ok s" and a: "a < length (route_objs s)"
    and reg: "routes s ! updater (route_objs s ! a) = Some a"
    and h: "handler (route_objs s ! a) = None"
  shows "dispatch N P s (updater (route_objs s ! a)) r =
     Some (Inr \<lparr> reply = Rejects (Error ''Validator and query are not defined''),
                 handler_calls = [] \<rparr>)"
proof -
  from ok a have u: "updater (route_objs s ! a) < length (routes s)"
    and c: "config_ref (route_objs s ! a) < length (config_objs s)"
    by (simp_all add: registry_ok_def)
  from ok c obtain zi where zi: "zodSchemas_input (config_objs s ! config_ref (route_objs s ! a)) = Some zi"
    by (auto simp add: registry_ok_def)
  have tr: "this_route s a =
      Some (route_objs s ! a, config_objs s ! config_ref (route_objs s ! a))"
    using a c by (simp add: this_route_def)
  show ?thesis
    using u
    by (simp add: dispatch_def reg tr addRoute_def zi isZodTypeNull_def requestHandler_def h)
qed

text \<open>
  C9, as amended. Take a builder chain on a route a factory has just created. The slot
  of the route then holds the route value the chain ended on, and its handler is the one
  the chain leaves attached: that of an \<open>fn\<close> call followed by no \<open>input\<close>,
  \<open>output\<close> or further \<open>fn\<close> call (\<open>method\<close> and \<open>url\<close> calls may follow), and none
  if there is no such \<open>fn\<close> call. With no handler, a request to that operation makes the
  handler throw "Validator and query are not defined" without calling anything.
\<close>

theorem chain_handler:
  assumes "run cmds (new_Router c) = Some s0"
    and "query_Router s0 op_id = (this, s) \<or> mutation_Router s0 op_id = (this, s)"
    and "chain calls (this, s) = Some (this', s')"
  shows "routes s' ! length (routes s0) = Some this'
   \<and> handler (route_objs s' ! this') = attached calls None
   \<and> (attached calls None = None \<longrightarrow>
        dispatch N P s' (length (routes s0)) r =
          Some (Inr \<lparr> reply = Rejects (Error ''Validator and query are not defined''),
                      handler_calls = [] \<rparr>))
   \<and> (\<forall>f. attached calls None = Some f \<longleftrightarrow>
            (\<exists>pre post. calls = pre @ Fn f # post \<and> list_all is_setter post))"
proof -
  from run_ok [OF registry_ok_new assms(1)] have ok0: "registry_ok s0" by simp
  from factory_effect [OF ok0 assms(2)]
  have ok: "registry_ok s" and th: "this = length (route_objs s0)"
    and rs: "routes s = routes s0 @ [Some this]"
    and ro: "route_objs s = route_objs s0 @
           [\<lparr> config_ref = length (config_objs s0), updater = length (routes s0), handler = None \<rparr>]"
    by simp_all
  have valid: "this < length (route_objs s)" and u: "updater (route_objs s ! this) = length (routes s0)"
    and h0: "handler (route_objs s ! this) = None"
    by (simp_all add: th ro)
  have reg: "routes s ! updater (route_objs s ! this) = Some this"
    by (simp add: u rs)
  from chain_effect [OF ok valid reg assms(3)]
  have ok': "registry_ok s'" and v': "this' < length (route_objs s')"
    and u': "updater (route_objs s' ! this') = length (routes s0)"
    and reg': "routes s' ! length (routes s0) = Some this'"
    and h': "handler (route_objs s' ! this') = attached calls None"
    by (simp_all add: u h0)
  have d: "dispatch N P s' (length (routes s0)) r =
          Some (Inr \<lparr> reply = Rejects (Error ''Validator and query are not defined''),
                      handler_calls = [] \<rparr>)" if "attached calls None = None"
    using dispatch_no_handler [OF ok' v', of N P r] that by (simp add: u' reg' h')
  have iff: "\<And>f. attached calls None = Some f \<longleftrightarrow>
            (\<exists>pre post. calls = pre @ Fn f # post \<and> list_all is_setter post)"
    by (simp add: attached_Some_iff)
  from reg' h' d iff show ?thesis by (intro conjI allI impI)
qed


theorem chain_handler_witness:
  "dispatch_after example_Number example_JSON_parse
     (chain [Fn (returns JNull), Input z_string] (query_Router example_router ''operate''))
     0 example_request =
   Some (Inr \<lparr> reply = Rejects (Error ''Validator and query are not defined''),
               handler_calls = [] \<rparr>)"
proof -
  have r: "run [] (new_Router \<lparr> name = ''myServer'', baseUrl = ''/v1'' \<rparr>) = Some example_router"
    by (simp add: example_router_def)
  obtain this s where q: "query_Router example_router ''operate'' = (this, s)"
    by (cases "query_Router example_router ''operate''")
  obtain this' s' where ch: "chain [Fn (returns JNull), Input z_string] (this, s) = Some (this', s')"
    using q
    by (auto simp add: query_Router_def addRoute_Router_def input_Route_def fn_Route_def
        this_route_def Let_def example_router_def new_Router_def)
  have len: "length (routes example_router) = 0"
    by (simp add: example_router_def new_Router_def)
  from chain_handler [OF r disjI1 [OF q] ch, of example_Number example_JSON_parse example_request]
  have "dispatch example_Number example_JSON_parse s' 0 example_request =
          Some (Inr \<lparr> reply = Rejects (Error ''Validator and query are not defined''),
                      handler_calls = [] \<rparr>)"
    by (simp add: len)
  then show ?thesis by (simp only: dispatch_after_def q ch option.case prod.case)
qed

text \<open>
  C9 as stated fails for a chain in which \<open>fn\<close> is followed by \<open>method\<close>: \<open>fn\<close> is
  not the final call, and yet the handler is still attached and is called.
\<close>

theorem fn_then_method_counterexample:
  "dispatch_after example_Number example_JSON_parse
     (chain [Fn (returns (JStr ''hi'')), Method ''delete'']
        (query_Router example_router ''operate''))
     0 example_request =
   Some (Inr \<lparr> reply = Sends 200 (JStr ''hi''),
               handler_calls = [(new_Context example_request, JNull)] \<rparr>)"
  by (simp add: dispatch_after_def query_Router_def addRoute_Router_def fn_Route_def
      method_Route_def this_route_def Let_def example_router_def new_Router_def
      dispatch_def addRoute_def isZodTypeNull_def z_null_def requestHandler_def
      extractPayload_def safeParse_def returns_def)


section \<open>Properties of the generated specification\<close>

lemma alist_ext:
  assumes "distinct (map fst xs)" and "map fst xs = map fst ys" and "map_of xs = map_of ys"
  shows "xs = ys"
  using assms
proof (induction xs arbitrary: ys)
  case Nil
  then show ?case by simp
next
  case (Cons x xs)
  from Cons.prems(2) obtain y ys' where ys: "ys = y # ys'" by (cases ys) auto
  with Cons.prems(2) have k: "fst x = fst y" and ks: "map fst xs = map fst ys'" by simp_all
  have eqa: "map_of (x # xs) a = map_of (y # ys') a" for a
    by (simp only: Cons.prems(3) ys)
  from eqa [of "fst x"] k have v: "snd x = snd y" by (cases x; cases y) simp
  have "map_of xs = map_of ys'"
  proof
    fix a
    show "map_of xs a = map_of ys' a"
    proof (cases "a = fst x")
      case True
      with Cons.prems(1) have n: "a \<notin> fst ` set xs" by auto
      from ks have "set (map fst xs) = set (map fst ys')" by simp
      then have "fst ` set xs = fst ` set ys'" by simp
      with n have n': "a \<notin> fst ` set ys'" by simp
      from n n' have "map_of xs a = None" "map_of ys' a = None"
        by (simp_all add: map_of_eq_None_iff)
      then show ?thesis by simp
    next
      case False
      from eqa [of a] False k show ?thesis by (cases x; cases y) simp
    qed
  qed
  from Cons.IH [OF _ ks this] Cons.prems(1) have "xs = ys'" by simp
  with k v ys show ?case by (cases x; cases y) simp
qed

text \<open>Writes to one object, in sequence.\<close>

lemma fold_update_keys:
  "fst ` set ops \<subseteq> fst ` set al \<Longrightarrow>
   map fst (fold (\<lambda>(k, v). AList.update k v) ops al) = map fst al"
proof (induction ops arbitrary: al)
  case Nil
  then show ?case by simp
next
  case (Cons x ops)
  obtain k v where x: "x = (k, v)" by (cases x)
  from Cons.prems x have k: "k \<in> fst ` set al" by simp
  then have keys: "map fst (AList.update k v al) = map fst al"
    by (simp add: update_keys)
  then have "set (map fst (AList.update k v al)) = set (map fst al)" by simp
  then have "fst ` set (AList.update k v al) = fst ` set al" by simp
  with Cons.prems have "fst ` set ops \<subseteq> fst ` set (AList.update k v al)" by simp
  from Cons.IH [OF this] keys x show ?case by simp
qed

lemma fold_update_dom:
  "fst ` set (fold (\<lambda>(k, v). AList.update k v) ops al) = fst ` set al \<union> fst ` set ops"
proof (induction ops arbitrary: al)
  case Nil
  then show ?case by simp
next
  case (Cons x ops)
  obtain k v where x: "x = (k, v)" by (cases x)
  have "set (map fst (AList.update k v al)) = insert k (set (map fst al))"
    by (auto simp add: update_keys)
  then have "fst ` set (AList.update k v al) = insert k (fst ` set al)" by simp
  with Cons.IH [of "AList.update k v al"] x show ?case by auto
qed

lemma fold_update_map_of:
  "map_of (fold (\<lambda>(k, v). AList.update k v) ops al) = map_of al ++ map_of (rev ops)"
proof (induction ops arbitrary: al)
  case Nil
  then show ?case by simp
next
  case (Cons x ops)
  obtain k v where x: "x = (k, v)" by (cases x)
  show ?case
    by (rule ext) (simp add: x Cons.IH update_conv' map_add_def split: option.splits)
qed

lemma fold_update_distinct:
  "distinct (map fst al) \<Longrightarrow> distinct (map fst (fold (\<lambda>(k, v). AList.update k v) ops al))"
  by (induction ops arbitrary: al) (auto simp add: distinct_update)

lemma fold_update_idem:
  assumes "distinct (map fst al)"
  shows "fold (\<lambda>(k, v). AList.update k v) ops (fold (\<lambda>(k, v). AList.update k v) ops al) =
         fold (\<lambda>(k, v). AList.update k v) ops al"
proof (rule alist_ext [symmetric])
  let ?F = "fold (\<lambda>(k, v). AList.update k v) ops"
  show "distinct (map fst (?F al))" using assms by (rule fold_update_distinct)
  have "fst ` set ops \<subseteq> fst ` set (?F al)" by (simp add: fold_update_dom)
  then show "map fst (?F al) = map fst (?F (?F al))" by (simp add: fold_update_keys)
  show "map_of (?F al) = map_of (?F (?F al))"
    by (rule ext) (simp add: fold_update_map_of map_add_def split: option.splits)
qed


text \<open>Writes to the paths of a document, in sequence.\<close>

lemma put_operation_keys:
  "map fst (put_operation (p, m, ope) P) =
     (if p \<in> fst ` set P then map fst P else map fst P @ [p])"
  by (simp add: put_operation_def update_keys)

lemma put_operation_map_of:
  "map_of (put_operation (p, m, ope) P) q =
     (if q = p then Some (AList.update m ope (case map_of P p of None \<Rightarrow> [] | Some item \<Rightarrow> item))
      else map_of P q)"
  by (simp add: put_operation_def update_conv')

lemma fold_put_keys:
  "fst ` set ops \<subseteq> fst ` set P \<Longrightarrow> map fst (fold put_operation ops P) = map fst P"
proof (induction ops arbitrary: P)
  case Nil
  then show ?case by simp
next
  case (Cons x ops)
  obtain p m ope where x: "x = (p, m, ope)" by (cases x)
  from Cons.prems x have "p \<in> fst ` set P" by simp
  then have keys: "map fst (put_operation x P) = map fst P"
    by (simp add: x put_operation_keys)
  then have "set (map fst (put_operation x P)) = set (map fst P)" by simp
  then have "fst ` set (put_operation x P) = fst ` set P" by simp
  with Cons.prems have "fst ` set ops \<subseteq> fst ` set (put_operation x P)" by simp
  from Cons.IH [OF this] keys show ?case by simp
qed

lemma fold_put_dom:
  "fst ` set (fold put_operation ops P) = fst ` set P \<union> fst ` set ops"
proof (induction ops arbitrary: P)
  case Nil
  then show ?case by simp
next
  case (Cons x ops)
  obtain p m ope where x: "x = (p, m, ope)" by (cases x)
  have "set (map fst (put_operation x P)) = insert p (set (map fst P))"
    by (auto simp add: x put_operation_keys)
  then have "fst ` set (put_operation x P) = insert p (fst ` set P)" by simp
  with Cons.IH [of "put_operation x P"] x show ?case by auto
qed

lemma fold_put_distinct:
  "distinct (map fst P) \<Longrightarrow> distinct (map fst (fold put_operation ops P))"
proof (induction ops arbitrary: P)
  case Nil
  then show ?case by simp
next
  case (Cons x ops)
  obtain p m ope where x: "x = (p, m, ope)" by (cases x)
  from Cons.prems have "distinct (map fst (put_operation x P))"
    by (simp add: x put_operation_def distinct_update)
  from Cons.IH [OF this] show ?case by simp
qed

lemma filter_no_path:
  "p \<notin> fst ` set ops \<Longrightarrow> filter (\<lambda>x. fst x = p) ops = []"
  by (auto simp add: filter_empty_conv)

lemma fold_put_map_of:
  "map_of (fold put_operation ops P) p =
     (if p \<in> fst ` set ops
      then Some (fold (\<lambda>(k, v). AList.update k v) (map snd (filter (\<lambda>x. fst x = p) ops))
                   (case map_of P p of None \<Rightarrow> [] | Some item \<Rightarrow> item))
      else map_of P p)"
proof (induction ops arbitrary: P)
  case Nil
  then show ?case by simp
next
  case (Cons x ops)
  obtain q m ope where x: "x = (q, m, ope)" by (cases x)
  show ?case
  proof (cases "q = p")
    case True
    show ?thesis
      by (cases "p \<in> fst ` set ops")
        (simp_all add: x True Cons.IH put_operation_map_of filter_no_path)
  next
    case False
    then show ?thesis
      by (simp add: x Cons.IH put_operation_map_of)
  qed
qed

lemma wellformed_paths_item:
  assumes "wellformed_paths P"
  shows "distinct (map fst (case map_of P p of None \<Rightarrow> [] | Some item \<Rightarrow> item))"
proof (cases "map_of P p")
  case None
  then show ?thesis by simp
next
  case (Some item)
  then have "(p, item) \<in> set P" by (rule map_of_SomeD)
  with assms have "distinct (map fst item)"
    by (fastforce simp add: wellformed_paths_def list_all_iff)
  with Some show ?thesis by simp
qed

lemma wellformed_paths_fold:
  assumes wf: "wellformed_paths P"
  shows "wellformed_paths (fold put_operation ops P)"
proof -
  let ?Q = "fold put_operation ops P"
  from wf have d: "distinct (map fst ?Q)"
    by (simp add: wellformed_paths_def fold_put_distinct)
  have "distinct (map fst item)" if "item \<in> set (map snd ?Q)" for item
  proof -
    from that obtain p where "(p, item) \<in> set ?Q" by auto
    with d have "map_of ?Q p = Some item" by simp
    then show ?thesis
      using wellformed_paths_item [OF wf, of p]
      by (auto simp add: fold_put_map_of fold_update_distinct split: if_splits dest: sym)
  qed
  with d show ?thesis by (simp add: wellformed_paths_def list_all_iff)
qed

lemma fold_put_idem:
  assumes wf: "wellformed_paths P"
  shows "fold put_operation ops (fold put_operation ops P) = fold put_operation ops P"
proof (rule alist_ext [symmetric])
  let ?Q = "fold put_operation ops P"
  from wf show "distinct (map fst ?Q)"
    by (simp add: wellformed_paths_def fold_put_distinct)
  have "fst ` set ops \<subseteq> fst ` set ?Q" by (simp add: fold_put_dom)
  then show "map fst ?Q = map fst (fold put_operation ops ?Q)" by (simp add: fold_put_keys)
  show "map_of ?Q = map_of (fold put_operation ops ?Q)"
  proof
    fix p
    show "map_of ?Q p = map_of (fold put_operation ops ?Q) p"
      using wellformed_paths_item [OF wf, of p]
      by (simp add: fold_put_map_of [of ops ?Q] fold_put_map_of [of ops P] fold_update_idem)
  qed
qed


text \<open>\<open>_generateOpenApi\<close> as a sequence of writes to the paths.\<close>

lemma addPath_put:
  "addPath p [(m, ope)] b = b\<lparr> paths := put_operation (p, m, ope) (paths b) \<rparr>"
  by (simp add: addPath_def spread_def put_operation_def)

lemma addPaths_operations:
  "addPaths s rs b =
     (snd (operations (map (\<lambda>a. map_option snd (this_route s a)) (List.map_filter id rs))),
      b\<lparr> paths :=
           fold put_operation
             (fst (operations (map (\<lambda>a. map_option snd (this_route s a)) (List.map_filter id rs))))
             (paths b) \<rparr>)"
proof (induction rs arbitrary: b)
  case Nil
  show ?case by (simp add: map_filter_simps)
next
  case (Cons x rs)
  show ?case
  proof (cases x)
    case None
    with Cons.IH show ?thesis by (simp add: map_filter_simps)
  next
    case (Some a)
    show ?thesis
    proof (cases "this_route s a")
      case None
      with Some show ?thesis by (simp add: map_filter_simps)
    next
      case tr: (Some rc)
      obtain r cfg where rc: "rc = (r, cfg)" by (cases rc)
      show ?thesis
      proof (cases "getOpenAPIOperation cfg")
        case (Inl e)
        with Some tr rc show ?thesis by (simp add: map_filter_simps)
      next
        case (Inr ope)
        with Some tr rc show ?thesis
          by (simp add: map_filter_simps Cons.IH addPath_put split: prod.splits)
      qed
    qed
  qed
qed

lemma generateOpenApi_operations:
  "generateOpenApi s =
     (snd (operations (route_configs s)),
      s\<lparr> openApiBuilder :=
           (openApiBuilder s)
             \<lparr> title := name (config s),
               paths := fold put_operation (fst (operations (route_configs s)))
                          (paths (openApiBuilder s)) \<rparr> \<rparr>)"
  by (simp add: generateOpenApi_def addPaths_operations route_configs_def addTitle_def)

lemma route_configs_builder [simp]:
  "route_configs (s\<lparr> openApiBuilder := b \<rparr>) = route_configs s"
  by (simp add: route_configs_def this_route_def)

text \<open>
  Generating the OpenAPI specification twice from the same Router with no registry
  mutation in between yields the same document and the same outcome as generating it
  once. The generated document is titled with the router's configured name and is a
  function of that name, of the configurations of the routes in registry order and of the
  document the Router's builder held before: \<open>_generateOpenApi\<close> keeps every path of
  that document, and leaves alone the path items no route writes to. The builder's paths
  are assumed to stand for a JavaScript object (distinct keys), which generating
  preserves.
\<close>

lemma generate_idempotent:
  assumes "wellformed_paths (paths (openApiBuilder s))"
  shows "generateOpenApi (snd (generateOpenApi s)) = generateOpenApi s
   \<and> wellformed_paths (paths (openApiBuilder (snd (generateOpenApi s))))
   \<and> title (getOpenApiSpec (snd (generateOpenApi s))) = name (config s)
   \<and> fst ` set (paths (getOpenApiSpec (snd (generateOpenApi s)))) =
       fst ` set (paths (openApiBuilder s)) \<union> fst ` set (fst (operations (route_configs s)))
   \<and> (\<forall>p. p \<notin> fst ` set (fst (operations (route_configs s))) \<longrightarrow>
          map_of (paths (getOpenApiSpec (snd (generateOpenApi s)))) p =
          map_of (paths (openApiBuilder s)) p)
   \<and> (\<forall>s2. route_configs s2 = route_configs s \<and> name (config s2) = name (config s)
            \<and> openApiBuilder s2 = openApiBuilder s \<longrightarrow>
          fst (generateOpenApi s2) = fst (generateOpenApi s)
        \<and> getOpenApiSpec (snd (generateOpenApi s2)) = getOpenApiSpec (snd (generateOpenApi s)))"
proof (intro conjI allI impI)
  show "generateOpenApi (snd (generateOpenApi s)) = generateOpenApi s"
    by (simp add: generateOpenApi_operations fold_put_idem [OF assms])
  show "wellformed_paths (paths (openApiBuilder (snd (generateOpenApi s))))"
    by (simp add: generateOpenApi_operations wellformed_paths_fold [OF assms])
  show "title (getOpenApiSpec (snd (generateOpenApi s))) = name (config s)"
    by (simp add: generateOpenApi_operations getOpenApiSpec_def)
  show "fst ` set (paths (getOpenApiSpec (snd (generateOpenApi s)))) =
       fst ` set (paths (openApiBuilder s)) \<union> fst ` set (fst (operations (route_configs s)))"
    by (simp add: generateOpenApi_operations getOpenApiSpec_def fold_put_dom)
next
  fix p
  assume "p \<notin> fst ` set (fst (operations (route_configs s)))"
  then show "map_of (paths (getOpenApiSpec (snd (generateOpenApi s)))) p =
          map_of (paths (openApiBuilder s)) p"
    by (simp add: generateOpenApi_operations getOpenApiSpec_def fold_put_map_of)
next
  fix s2
  assume a: "route_configs s2 = route_configs s \<and> name (config s2) = name (config s)
            \<and> openApiBuilder s2 = openApiBuilder s"
  then show "fst (generateOpenApi s2) = fst (generateOpenApi s)"
    by (simp add: generateOpenApi_operations)
  from a show "getOpenApiSpec (snd (generateOpenApi s2)) = getOpenApiSpec (snd (generateOpenApi s))"
    by (simp add: generateOpenApi_operations getOpenApiSpec_def)
qed

lemma generate_idempotent_example:
  "generateOpenApi (snd (generateOpenApi (snd (query_Router example_router ''operate'')))) =
     generateOpenApi (snd (query_Router example_router ''operate''))
 \<and> title (getOpenApiSpec (snd (generateOpenApi (snd (query_Router example_router ''operate''))))) =
     ''myServer''"
proof -
  have wf: "wellformed_paths (paths (openApiBuilder (snd (query_Router example_router ''operate''))))"
    unfolding operate_created
    by (simp add: example_router_def new_Router_def OpenApiBuilder_create_def
        wellformed_paths_def)
  have n: "name (config (snd (query_Router example_router ''operate''))) = ''myServer''"
    unfolding operate_created by (simp add: example_router_def new_Router_def)
  from generate_idempotent [OF wf, THEN conjunct1] generate_idempotent [OF wf, THEN conjunct2, THEN conjunct2, THEN conjunct1] n
  show ?thesis by (simp only: simp_thms)
qed

lemma single_route_paths:
  assumes "route_configs s = [Some cfg]"
    and "zodSchemas_input cfg = Some zi" and "zodSchemas_output cfg = Some zo"
  shows "map fst (paths (getOpenApiSpec (snd (generateOpenApi s)))) =
     (if url cfg \<in> fst ` set (paths (openApiBuilder s)) then map fst (paths (openApiBuilder s))
      else map fst (paths (openApiBuilder s)) @ [url cfg])"
proof -
  obtain ope where "getOpenAPIOperation cfg = Inr ope" and "path ope = url cfg"
    using getOpenAPIOperation_defined [OF assms(2,3)] by simp
  then have "fst (operations (route_configs s)) = [(url cfg, http_method ope, operation ope)]"
    by (simp add: assms(1))
  then show ?thesis
    by (simp add: generateOpenApi_operations getOpenApiSpec_def put_operation_keys)
qed

subsection \<open>A path that outlives its route\<close>

text \<open>
  C8 does not hold of the code: the generated document is not a function of the current
  registry state. Create \<open>router.query("operate")\<close>, generate, move the route with
  \<open>url("/v2/operate")\<close> and generate again: the document lists \<open>/v1/operate\<close>, a path
  no route has any more, beside \<open>/v2/operate\<close>. A Router brought to the same registry
  state (the same configuration, route list, route and configuration objects) without the
  first generation yields \<open>/v2/operate\<close> alone. \<open>_generateOpenApi\<close> writes into the
  builder the constructor made and never starts a new document.
\<close>

theorem generate_keeps_stale_path:
  "registry_of (chain [Url ''/v2/operate'']
       (0, snd (generateOpenApi (snd (query_Router example_router ''operate''))))) =
   registry_of (chain [Url ''/v2/operate''] (query_Router example_router ''operate''))
 \<and> generated_paths (chain [Url ''/v2/operate''] (query_Router example_router ''operate'')) =
     Some [''/v2/operate'']
 \<and> generated_paths (chain [Url ''/v2/operate'']
       (0, snd (generateOpenApi (snd (query_Router example_router ''operate''))))) =
     Some [''/v1/operate'', ''/v2/operate'']"
proof -
  define s0 where "s0 = snd (query_Router example_router ''operate'')"
  define b1 where "b1 = openApiBuilder (snd (generateOpenApi s0))"
  define moved where "moved = operate_config\<lparr> url := ''/v2/operate'' \<rparr>"
  have q: "query_Router example_router ''operate'' = (0, s0)"
    by (simp add: s0_def operate_created)
  have s0: "config_objs s0 = [operate_config]"
    "route_objs s0 = [\<lparr> config_ref = 0, updater = 0, handler = None \<rparr>]"
    "routes s0 = [Some 0]" "paths (openApiBuilder s0) = []"
    unfolding s0_def operate_created
    by (simp_all add: example_router_def new_Router_def OpenApiBuilder_create_def)
  have rc0: "route_configs s0 = [Some operate_config]"
    by (simp add: route_configs_def map_filter_simps this_route_def s0)
  have z: "zodSchemas_input operate_config = Some z_null"
    "zodSchemas_output operate_config = Some z_any" "url operate_config = ''/v1/operate''"
    by (simp_all add: operate_config_def)
  have zm: "zodSchemas_input moved = Some z_null"
    "zodSchemas_output moved = Some z_any" "url moved = ''/v2/operate''"
    by (simp_all add: moved_def operate_config_def)
  have s1: "snd (generateOpenApi s0) = s0\<lparr> openApiBuilder := b1 \<rparr>"
    by (simp add: b1_def generateOpenApi_operations)
  have p1: "map fst (paths b1) = [''/v1/operate'']"
    using single_route_paths [OF rc0 z(1,2)]
    by (simp add: b1_def getOpenApiSpec_def s0 z)
  then have "set (map fst (paths b1)) = set [''/v1/operate'']" by (simp only:)
  then have d1: "fst ` set (paths b1) = {''/v1/operate''}" by simp
  have c0: "chain [Url ''/v2/operate''] (0, s0) = Some (0, s0\<lparr> config_objs := [moved] \<rparr>)"
    by (simp add: url_Route_def this_route_def s0 moved_def)
  have c1: "chain [Url ''/v2/operate''] (0, s0\<lparr> openApiBuilder := b1 \<rparr>) =
              Some (0, s0\<lparr> openApiBuilder := b1, config_objs := [moved] \<rparr>)"
    by (simp add: url_Route_def this_route_def s0 moved_def)
  have rcm: "route_configs (s0\<lparr> config_objs := [moved] \<rparr>) = [Some moved]"
    "route_configs (s0\<lparr> openApiBuilder := b1, config_objs := [moved] \<rparr>) = [Some moved]"
    by (simp_all add: route_configs_def map_filter_simps this_route_def s0)
  have g0: "map fst (paths (getOpenApiSpec (snd (generateOpenApi (s0\<lparr> config_objs := [moved] \<rparr>))))) =
      [''/v2/operate'']"
    using single_route_paths [OF rcm(1) zm(1,2)] by (simp add: s0 zm)
  have g1: "map fst (paths (getOpenApiSpec (snd (generateOpenApi
        (s0\<lparr> openApiBuilder := b1, config_objs := [moved] \<rparr>))))) =
      [''/v1/operate'', ''/v2/operate'']"
    using single_route_paths [OF rcm(2) zm(1,2)] by (simp add: zm p1 d1)
  show ?thesis
    unfolding q snd_conv s1 c0 c1 generated_paths_def registry_of_def
    by (simp add: g0 g1)
qed


end
